theory Spec2Isabelle
  imports Complex_Main "HOL-Library.Multiset"
begin

section \<open>Arrays\<close>

text \<open>
  The program (\<^verbatim>\<open>src/utils/dicom_to_nii.py\<close>) computes with numpy arrays of
  double-precision numbers. An array element is a real number. The first model of each
  function computes in exact arithmetic: what it says about signs, comparisons, negations
  and the order of the elements is what the program does, since float64 computes these
  without rounding. Where the rounding decides a claim it is modelled: the update of the
  translation column in \<open>convert_coords\<close> rounds to float64 in \<open>convert_coords_fl\<close>,
  and the result of \<open>np.linalg.lstsq\<close> is a parameter of \<open>create_affine_with\<close>.
  The places where numpy leaves the real numbers are modelled on their own: a division by
  zero (in the section on \<open>create_affine\<close>), an overflow (in the section on rounding)
  and the negative zero (in the section of that name).

  A 2-D array is the list of its rows, a 3-D array the list of its slices, each the list
  of its rows: \<open>vol ! s ! r ! c\<close> is numpy's \<open>vol[s, r, c]\<close>.
\<close>

type_synonym matrix = "real list list"
type_synonym volume = "real list list list"

definition is_mat4 :: "matrix \<Rightarrow> bool" where
  "is_mat4 m \<longleftrightarrow> length m = 4 \<and> list_all (\<lambda>r. length r = 4) m"

text \<open>\<open>m[:, j]\<close>\<close>

definition column :: "matrix \<Rightarrow> nat \<Rightarrow> real list" where
  "column m j = map (\<lambda>r. r ! j) m"

text \<open>\<open>np.eye(n)\<close>, and the assignment \<open>m[i, j] = v\<close>\<close>

definition eye :: "nat \<Rightarrow> matrix" where
  "eye n = map (\<lambda>i. map (\<lambda>j. if i = j then 1 else 0) [0..<n]) [0..<n]"

definition set_entry :: "matrix \<Rightarrow> nat \<Rightarrow> nat \<Rightarrow> real \<Rightarrow> matrix" where
  "set_entry m i j v = m[i := (m ! i)[j := v]]"

text \<open>\<open>np.dot(a, b)\<close> for two 2-D arrays whose shapes agree\<close>

definition ncols :: "matrix \<Rightarrow> nat" where
  "ncols m = (case m of [] \<Rightarrow> 0 | r # _ \<Rightarrow> length r)"

definition dot :: "matrix \<Rightarrow> matrix \<Rightarrow> matrix" where
  "dot a b = map (\<lambda>r. map (\<lambda>j. sum_list (map2 (*) r (column b j))) [0..<ncols b]) a"

text \<open>
  \<open>np.argmax\<close>: the first index at which the maximum stands. numpy raises ValueError on
  an empty array; the program calls it on columns of a 4x4 matrix only.
\<close>

fun argmax_from :: "nat \<Rightarrow> real \<Rightarrow> nat \<Rightarrow> real list \<Rightarrow> nat" where
  "argmax_from best bv i [] = best"
| "argmax_from best bv i (x # xs) =
     (if bv < x then argmax_from i x (Suc i) xs else argmax_from best bv (Suc i) xs)"

definition argmax :: "real list \<Rightarrow> nat" where
  "argmax xs = (case xs of [] \<Rightarrow> 0 | x # xs' \<Rightarrow> argmax_from 0 x 1 xs')"

text \<open>
  \<open>vol.shape[ax]\<close> and \<open>np.flip(vol, ax)\<close> of a 3-D array. A list of slices has
  the shape of the array when it has a slice and the slices have a row; an array with an
  empty axis is represented with the axes after it empty as well.
\<close>

definition shape :: "volume \<Rightarrow> nat \<Rightarrow> nat" where
  "shape vol ax =
     (if ax = 0 then length vol
      else if ax = 1 then (case vol of [] \<Rightarrow> 0 | s # _ \<Rightarrow> length s)
      else (case vol of [] \<Rightarrow> 0 | s # _ \<Rightarrow> (case s of [] \<Rightarrow> 0 | r # _ \<Rightarrow> length r)))"

definition rectangular :: "volume \<Rightarrow> bool" where
  "rectangular vol \<longleftrightarrow>
     list_all (\<lambda>s. length s = shape vol 1 \<and> list_all (\<lambda>r. length r = shape vol 2) s) vol"

definition flip :: "volume \<Rightarrow> nat \<Rightarrow> volume" where
  "flip vol ax =
     (if ax = 0 then rev vol else if ax = 1 then map rev vol else map (map rev) vol)"

section \<open>The Coordinate Normalizer: \<open>convert_coords\<close>\<close>

text \<open>
  \<^verbatim>\<open>
  convmat = np.eye(4)
  convmat[0,0] = -1.0
  convmat[1,1] = -1.0
  \<close>
\<close>

definition convmat :: matrix where
  "convmat = set_entry (set_entry (eye 4) 0 0 (- 1)) 1 1 (- 1)"

text \<open>
  \<^verbatim>\<open>
  xabs = np.abs(mat[:,0])
  yabs = np.abs(mat[:,1])
  xmaxi = np.argmax(xabs)
  yabs[xmaxi] = 0.0
  ymaxi = np.argmax(yabs)
  \<close>
\<close>

definition xmaxi_of :: "matrix \<Rightarrow> nat" where
  "xmaxi_of mat = argmax (map abs (column mat 0))"

definition ymaxi_of :: "matrix \<Rightarrow> nat" where
  "ymaxi_of mat = argmax ((map abs (column mat 1))[xmaxi_of mat := 0])"

text \<open>\<open>mat[:,dst] += mat[:,src]*k\<close> and \<open>mat[:,j] = -mat[:,j]\<close>\<close>

definition add_scaled_col :: "matrix \<Rightarrow> nat \<Rightarrow> nat \<Rightarrow> real \<Rightarrow> matrix" where
  "add_scaled_col mat dst src k = map (\<lambda>r. r[dst := r ! dst + r ! src * k]) mat"

definition negate_col :: "matrix \<Rightarrow> nat \<Rightarrow> matrix" where
  "negate_col mat j = map (\<lambda>r. r[j := - (r ! j)]) mat"

text \<open>
  The two flip branches. \<open>vol[:] = np.flip(vol, 2)\<close> assigns a reversed view of the
  array to the array itself; numpy copies overlapping operands first, so the result is the
  reversed array. The extent is a Python integer, \<open>vol.shape[2] - 1\<close> is \<open>-1\<close> for an
  empty axis.
  \<^verbatim>\<open>
  vol[:] = np.flip(vol, 2)
  mat[:,3] += mat[:,0]*(vol.shape[2] - 1)
  mat[:,0] = -mat[:,0]
  \<close>
\<close>

definition flip_x :: "volume \<times> matrix \<Rightarrow> volume \<times> matrix" where
  "flip_x vm =
     (case vm of (vol, mat) \<Rightarrow>
        let vol' = flip vol 2;
            mat' = add_scaled_col mat 3 0 (of_int (int (shape vol' 2) - 1))
        in (vol', negate_col mat' 0))"

definition flip_y :: "volume \<times> matrix \<Rightarrow> volume \<times> matrix" where
  "flip_y vm =
     (case vm of (vol, mat) \<Rightarrow>
        let vol' = flip vol 1;
            mat' = add_scaled_col mat 3 1 (of_int (int (shape vol' 1) - 1))
        in (vol', negate_col mat' 1))"

text \<open>
  The function mutates \<open>vol\<close> and \<open>mat\<close> in place and returns nothing; the model
  returns the pair after the call. The last line, \<open>mat[mat == 0.0] = 0.0\<close>, writes
  \<open>0.0\<close> over every entry that compares equal to zero.
\<close>

definition convert_coords :: "volume \<Rightarrow> matrix \<Rightarrow> volume \<times> matrix" where
  "convert_coords vol mat =
     (let mat1 = dot convmat mat;
          xmaxi = xmaxi_of mat1;
          ymaxi = ymaxi_of mat1;
          vm2 = (if mat1 ! xmaxi ! 0 < 0 then flip_x (vol, mat1) else (vol, mat1));
          vm3 = (if snd vm2 ! ymaxi ! 1 < 0 then flip_y vm2 else vm2)
      in (fst vm3, map (map (\<lambda>e. if e = 0 then 0 else e)) (snd vm3)))"

text \<open>
  The physical point that the affine \<open>mat\<close> assigns to the voxel index
  \<open>(col, row, slice)\<close>: the product of the matrix with \<open>(col, row, slice, 1)\<close>.
\<close>

definition physical :: "matrix \<Rightarrow> nat \<Rightarrow> nat \<Rightarrow> nat \<Rightarrow> real list" where
  "physical mat c r s =
     map (\<lambda>row. row ! 0 * real c + row ! 1 * real r + row ! 2 * real s + row ! 3) mat"

section \<open>The Volume Reconstructor: \<open>create_affine\<close>\<close>

text \<open>
  \<open>ipp\<close> is an Nx3 array, \<open>iop\<close> an Nx6 array and \<open>ps\<close> an Nx2 array. A row of
  \<open>ipp\<close> is a triple, a row of \<open>ps\<close> a pair, and a row of \<open>iop\<close> the pair of its
  halves \<open>[0:3]\<close> and \<open>[3:6]\<close>, which is the only way the function reads it.
\<close>

type_synonym vec3 = "real \<times> real \<times> real"

text \<open>
  What a call does. \<open>ps[0,:]\<close> raises IndexError when \<open>ps\<close> has no row
  (\<open>InvalidDicomError\<close> is what \<open>pydicom.dcmread\<close> raises and \<open>TypeError\<close> what
  \<open>int\<close> raises, both in the Series Loader). A division
  by zero does not raise in numpy: it yields NaN, which is no real number, and the call
  goes on and returns arrays that hold NaN. The model reports such a call as
  \<open>NonFinite\<close>, with what it wrote to stderr, and says nothing else about its result.
  Otherwise the call returns the matrix and the pixdim array, and the model adds the
  lines written to stderr.
\<close>

datatype py_error = IndexError | InvalidDicomError | TypeError

record affine_result =
  affine :: matrix
  pixdim :: "real list"
  stderr :: "string list"

datatype outcome = Raises py_error | NonFinite "string list" | Returns affine_result

text \<open>Elementwise operations on 3-vectors, \<open>np.dot\<close>, \<open>np.cross\<close>, and
  \<open>np.sqrt(np.sum(np.square(a)))\<close>\<close>

definition vmap :: "(real \<Rightarrow> real) \<Rightarrow> vec3 \<Rightarrow> vec3" where
  "vmap f a = (case a of (x, y, z) \<Rightarrow> (f x, f y, f z))"

definition dot3 :: "vec3 \<Rightarrow> vec3 \<Rightarrow> real" where
  "dot3 a b = (case a of (a0, a1, a2) \<Rightarrow> case b of (b0, b1, b2) \<Rightarrow> a0 * b0 + a1 * b1 + a2 * b2)"

definition cross :: "vec3 \<Rightarrow> vec3 \<Rightarrow> vec3" where
  "cross a b = (case a of (a0, a1, a2) \<Rightarrow> case b of (b0, b1, b2) \<Rightarrow>
     (a1 * b2 - a2 * b1, a2 * b0 - a0 * b2, a0 * b1 - a1 * b0))"

definition norm3 :: "vec3 \<Rightarrow> real" where
  "norm3 a = sqrt (dot3 a a)"

text \<open>\<open>a[(np.abs(a) < 1e-6)] = 0.0\<close>, on one element\<close>

definition snap :: "real \<Rightarrow> real" where
  "snap x = (if \<bar>x\<bar> < 1 / 10 ^ 6 then 0 else x)"

text \<open>
  \<open>np.round(x, 7)\<close>: numpy multiplies by \<open>10^7\<close>, rounds to the nearest integer
  with ties to the even one, and divides by \<open>10^7\<close>.
\<close>

definition rint :: "real \<Rightarrow> int" where
  "rint x = (let f = \<lfloor>x\<rfloor>; d = x - of_int f
             in if d < 1 / 2 then f else if 1 / 2 < d then f + 1
                else if even f then f else f + 1)"

definition round7 :: "real \<Rightarrow> real" where
  "round7 x = of_int (rint (x * 10 ^ 7)) / 10 ^ 7"

text \<open>
  \<^verbatim>\<open>
  n = ipp.shape[0]
  A = np.column_stack([np.arange(n), np.ones(n)])
  x, r, rank, s = np.linalg.lstsq(A, ipp, rcond=None)
  \<close>
  \<open>np.linalg.lstsq\<close> is a library function: it returns the least-squares solution of
  \<open>A x = b\<close>, the one of least norm when there are several, column by column of \<open>b\<close>.
  For this \<open>A\<close> and one column \<open>ys\<close> of \<open>b\<close> that is the regression line of
  \<open>ys\<close> against the index: with two rows or more the unique solution of the normal
  equations (slope, intercept); with one row the system \<open>0 a + b = y\<close>, whose solution
  of least norm is \<open>(0, y)\<close>; with no row numpy returns zeros. Lemma
  \<open>lstsq_line_optimal\<close> below checks the first case against the definition of a
  least-squares solution.
\<close>

definition lstsq_line :: "real list \<Rightarrow> real \<times> real" where
  "lstsq_line ys =
     (let n = length ys;
          sx = (\<Sum>i<n. real i);
          sxx = (\<Sum>i<n. (real i)\<^sup>2);
          sy = (\<Sum>i<n. ys ! i);
          sxy = (\<Sum>i<n. real i * ys ! i)
      in if n = 0 then (0, 0)
         else if n = 1 then (0, ys ! 0)
         else let a = (real n * sxy - sx * sy) / (real n * sxx - sx\<^sup>2)
              in (a, (sy - a * sx) / real n))"

text \<open>
  \<^verbatim>\<open>
  x[(np.abs(x) < 1e-6)] = 0.0
  vec = x[0,:] # slope
  pos = x[1,:] # intercept
  \<close>
\<close>

definition lstsq :: "vec3 list \<Rightarrow> vec3 \<times> vec3" where
  "lstsq ipp =
     (let (a0, b0) = lstsq_line (map fst ipp);
          (a1, b1) = lstsq_line (map (fst \<circ> snd) ipp);
          (a2, b2) = lstsq_line (map (snd \<circ> snd) ipp)
      in ((a0, a1, a2), (b0, b1, b2)))"

definition fit_positions :: "vec3 list \<Rightarrow> vec3 \<times> vec3" where
  "fit_positions ipp =
     (let (slope, intercept) = lstsq ipp in (vmap snap slope, vmap snap intercept))"

text \<open>
  \<^verbatim>\<open>
  iop_average = np.mean(iop, axis=0)
  u = iop_average[0:3]
  u /= np.sqrt(np.sum(np.square(u)))
  v = iop_average[3:6]
  v /= np.sqrt(np.sum(np.square(v)))
  u[(np.abs(u) < 1e-6)] = 0.0
  v[(np.abs(v) < 1e-6)] = 0.0
  \<close>
  The mean of no rows is NaN, and so is a zero vector divided by its norm: the result is
  \<open>None\<close> then.
\<close>

definition vsum :: "vec3 list \<Rightarrow> vec3" where
  "vsum vs = (sum_list (map fst vs), sum_list (map (fst \<circ> snd) vs), sum_list (map (snd \<circ> snd) vs))"

definition normalize3 :: "vec3 \<Rightarrow> vec3 option" where
  "normalize3 a = (if norm3 a = 0 then None else Some (vmap (\<lambda>x. x / norm3 a) a))"

definition iop_mean :: "(vec3 \<times> vec3) list \<Rightarrow> vec3 \<times> vec3" where
  "iop_mean iop =
     (let n = real (length iop)
      in (vmap (\<lambda>x. x / n) (vsum (map fst iop)), vmap (\<lambda>x. x / n) (vsum (map snd iop))))"

definition orientation :: "(vec3 \<times> vec3) list \<Rightarrow> (vec3 \<times> vec3) option" where
  "orientation iop =
     (if iop = [] then None
      else let (u, v) = iop_mean iop
           in case normalize3 u of None \<Rightarrow> None
              | Some u' \<Rightarrow> (case normalize3 v of None \<Rightarrow> None
                  | Some v' \<Rightarrow> Some (vmap snap u', vmap snap v')))"

text \<open>The two lines the function can write to stderr, each ending in a newline.\<close>

definition spacing_msg :: string where
  "spacing_msg = ''Pixel spacing is inconsistent!'' @ [CHR 0x0A]"

definition orthogonal_msg :: string where
  "orthogonal_msg = ''Non-orthogonal volume!'' @ [CHR 0x0A]"

text \<open>
  \<^verbatim>\<open>
  mat = np.eye(4)
  mat[0:3,0] = u*spacing[0]
  mat[0:3,1] = v*spacing[1]
  mat[0:3,2] = vec
  mat[0:3,3] = pos
  \<close>
\<close>

definition assemble :: "vec3 \<Rightarrow> vec3 \<Rightarrow> vec3 \<Rightarrow> vec3 \<Rightarrow> matrix" where
  "assemble c0 c1 c2 c3 =
     (case c0 of (x0, y0, z0) \<Rightarrow> case c1 of (x1, y1, z1) \<Rightarrow>
      case c2 of (x2, y2, z2) \<Rightarrow> case c3 of (x3, y3, z3) \<Rightarrow>
        [[x0, x1, x2, x3], [y0, y1, y2, y3], [z0, z1, z2, z3], [0, 0, 0, 1]])"

text \<open>
  The function, in the order of its statements: the fit (lines 55-61), the pixel spacing
  and its check (64-67), the slice spacing (70), the orientation (73-81), the matrix
  (84-88), the check of orthogonality (91-94) and the pixdim array (97).
\<close>

definition create_affine :: "vec3 list \<Rightarrow> (vec3 \<times> vec3) list \<Rightarrow> (real \<times> real) list \<Rightarrow> outcome" where
  "create_affine ipp iop ps =
     (let (vec, pos) = fit_positions ipp
      in case ps of
           [] \<Rightarrow> Raises IndexError
         | ps0 # _ \<Rightarrow>
             let spacing0 = fst ps0; spacing1 = snd ps0;
                 err1 = (if spacing0 * (1 / 10 ^ 6)
                            < (\<Sum>p\<leftarrow>ps. \<bar>fst p - spacing0\<bar> + \<bar>snd p - spacing1\<bar>)
                         then [spacing_msg] else []);
                 spacing2 = round7 (norm3 vec)
             in case orientation iop of
                  None \<Rightarrow> NonFinite err1
                | Some (u, v) \<Rightarrow>
                    let m = assemble (vmap (\<lambda>x. x * spacing0) u) (vmap (\<lambda>x. x * spacing1) v)
                              vec pos;
                        dv = dot3 vec (cross u v);
                        qfac = sgn dv;
                        err2 = (if 1 / 10 ^ 6 < \<bar>qfac * dv - spacing2\<bar>
                                then [orthogonal_msg] else [])
                    in Returns \<lparr>affine = m, pixdim = [qfac, spacing0, spacing1, spacing2],
                                stderr = err1 @ err2\<rparr>)"

text \<open>
  The same function with the call of \<open>np.linalg.lstsq\<close> as a parameter: \<open>solve ipp\<close>
  is what the call returns for \<open>A\<close> and \<open>ipp\<close>, the two rows of \<open>x\<close>. In float64
  that is the least-squares solution up to the numerical error of the library routine;
  \<open>create_affine\<close> is the function for the exact solution
  (lemma \<open>create_affine_with_lstsq\<close>). \<open>accurate \<delta> a b\<close>: every component of
  \<open>a\<close> is within \<open>\<delta>\<close> of that of \<open>b\<close>.
\<close>

definition fit_positions_with :: "(vec3 list \<Rightarrow> vec3 \<times> vec3) \<Rightarrow> vec3 list \<Rightarrow> vec3 \<times> vec3" where
  "fit_positions_with solve ipp =
     (let (slope, intercept) = solve ipp in (vmap snap slope, vmap snap intercept))"

definition create_affine_with ::
  "(vec3 list \<Rightarrow> vec3 \<times> vec3) \<Rightarrow> vec3 list \<Rightarrow> (vec3 \<times> vec3) list \<Rightarrow> (real \<times> real) list \<Rightarrow> outcome" where
  "create_affine_with solve ipp iop ps =
     (let (vec, pos) = fit_positions_with solve ipp
      in case ps of
           [] \<Rightarrow> Raises IndexError
         | ps0 # _ \<Rightarrow>
             let spacing0 = fst ps0; spacing1 = snd ps0;
                 err1 = (if spacing0 * (1 / 10 ^ 6)
                            < (\<Sum>p\<leftarrow>ps. \<bar>fst p - spacing0\<bar> + \<bar>snd p - spacing1\<bar>)
                         then [spacing_msg] else []);
                 spacing2 = round7 (norm3 vec)
             in case orientation iop of
                  None \<Rightarrow> NonFinite err1
                | Some (u, v) \<Rightarrow>
                    let m = assemble (vmap (\<lambda>x. x * spacing0) u) (vmap (\<lambda>x. x * spacing1) v)
                              vec pos;
                        dv = dot3 vec (cross u v);
                        qfac = sgn dv;
                        err2 = (if 1 / 10 ^ 6 < \<bar>qfac * dv - spacing2\<bar>
                                then [orthogonal_msg] else [])
                    in Returns \<lparr>affine = m, pixdim = [qfac, spacing0, spacing1, spacing2],
                                stderr = err1 @ err2\<rparr>)"



text \<open>A 3-vector with no non-zero component below \<open>1e-6\<close> in magnitude.\<close>

definition snapped3 :: "vec3 \<Rightarrow> bool" where
  "snapped3 a = (case a of (x, y, z) \<Rightarrow>
     (x = 0 \<or> 1 / 10 ^ 6 \<le> \<bar>x\<bar>) \<and> (y = 0 \<or> 1 / 10 ^ 6 \<le> \<bar>y\<bar>) \<and> (z = 0 \<or> 1 / 10 ^ 6 \<le> \<bar>z\<bar>))"

section \<open>The negative zero\<close>

text \<open>
  The real numbers have one zero, a floating-point number has two. For the last line of
  \<open>convert_coords\<close>, \<open>mat[mat == 0.0] = 0.0\<close>, an entry is a real number or the
  negative zero; \<open>Num 0\<close> is the positive zero. The comparison \<open>==\<close> compares values,
  so both zeros are equal to \<open>0.0\<close>, and the assignment writes the positive zero.
\<close>

datatype fp = NegZero | Num real

definition fp_val :: "fp \<Rightarrow> real" where
  "fp_val a = (case a of NegZero \<Rightarrow> 0 | Num x \<Rightarrow> x)"

definition fp_eq :: "fp \<Rightarrow> fp \<Rightarrow> bool" where
  "fp_eq a b \<longleftrightarrow> fp_val a = fp_val b"

definition eliminate_negzero :: "fp list list \<Rightarrow> fp list list" where
  "eliminate_negzero m = map (map (\<lambda>e. if fp_eq e (Num 0) then Num 0 else e)) m"

section \<open>Rounding to float64: the translation update of \<open>convert_coords\<close>\<close>

text \<open>
  \<open>convert_coords\<close> above is the function in exact arithmetic. Its statements negate,
  compare and reindex, which float64 does without rounding, except the update of the
  translation column, \<open>mat[:,3] += mat[:,k]*(extent - 1)\<close>, which multiplies and adds.
  This section is the function with that update as float64 computes it.

  A float64 number is \<open>m * 2^e\<close> for integers \<open>m\<close> and \<open>e\<close> with
  \<open>|m| \<le> 2^53\<close> and \<open>-1074 \<le> e\<close>, of magnitude below \<open>2^1024\<close>. \<open>round53\<close>
  rounds a real number to the nearest number of that form, whatever its magnitude, and to
  the one with the even \<open>m\<close> when two are equally near, as IEEE 754 arithmetic does by
  default: around \<open>x\<close> the numbers are \<open>2^(\<lfloor>log2 |x|\<rfloor> - 52)\<close> apart, and
  \<open>2^-1074\<close> apart where they are subnormal. A float64 operation returns the rounded
  exact result, or an infinity when that has magnitude \<open>2^1024\<close> or more: \<open>fl64\<close> is
  \<open>None\<close> then.
\<close>

definition round53 :: "real \<Rightarrow> real" where
  "round53 x =
     (if x = 0 then 0
      else let q = 2 powi (max (\<lfloor>log 2 \<bar>x\<bar>\<rfloor> - 52) (- 1074))
           in of_int (rint (x / q)) * q)"

definition fl64 :: "real \<Rightarrow> real option" where
  "fl64 x = (let r = round53 x in if \<bar>r\<bar> < 2 ^ 1024 then Some r else None)"

text \<open>The float64 numbers are the real numbers that rounding leaves as they are.\<close>

definition representable :: "real \<Rightarrow> bool" where
  "representable x \<longleftrightarrow> fl64 x = Some x"

text \<open>
  One element of \<open>mat[:,3] += mat[:,src]*k\<close>: numpy converts the Python integer
  \<open>k\<close> to float64, rounds the product and rounds the sum. A value that is infinite
  stays infinite or becomes NaN, so the result is \<open>None\<close> as soon as one step is.
\<close>

definition update_entry :: "real \<Rightarrow> real \<Rightarrow> int \<Rightarrow> real option" where
  "update_entry t c k =
     (case fl64 (of_int k) of
        None \<Rightarrow> None
      | Some kf \<Rightarrow> (case fl64 (c * kf) of None \<Rightarrow> None | Some p \<Rightarrow> fl64 (t + p)))"

text \<open>
  The statement on the whole column: \<open>None\<close> when an element of the column is not finite
  afterwards, and the model says nothing else about such a run.
\<close>

definition add_scaled_col_fl :: "matrix \<Rightarrow> nat \<Rightarrow> nat \<Rightarrow> int \<Rightarrow> matrix option" where
  "add_scaled_col_fl mat dst src k =
     those (map (\<lambda>r. map_option (\<lambda>t. r[dst := t]) (update_entry (r ! dst) (r ! src) k)) mat)"

text \<open>The two flip branches with this update; the reversal and the negation are exact.\<close>

definition flip_x_fl :: "volume \<times> matrix \<Rightarrow> (volume \<times> matrix) option" where
  "flip_x_fl vm =
     (case vm of (vol, mat) \<Rightarrow>
        let vol' = flip vol 2
        in map_option (\<lambda>mat'. (vol', negate_col mat' 0))
             (add_scaled_col_fl mat 3 0 (int (shape vol' 2) - 1)))"

definition flip_y_fl :: "volume \<times> matrix \<Rightarrow> (volume \<times> matrix) option" where
  "flip_y_fl vm =
     (case vm of (vol, mat) \<Rightarrow>
        let vol' = flip vol 1
        in map_option (\<lambda>mat'. (vol', negate_col mat' 1))
             (add_scaled_col_fl mat 3 1 (int (shape vol' 1) - 1)))"

text \<open>
  The function with these branches. \<open>np.dot(convmat, mat)\<close> multiplies by \<open>-1\<close>,
  \<open>0\<close> and \<open>1\<close> and adds zeros, so it does not round.
\<close>

definition convert_coords_fl :: "volume \<Rightarrow> matrix \<Rightarrow> (volume \<times> matrix) option" where
  "convert_coords_fl vol mat =
     (let mat1 = dot convmat mat;
          xmaxi = xmaxi_of mat1;
          ymaxi = ymaxi_of mat1
      in case (if mat1 ! xmaxi ! 0 < 0 then flip_x_fl (vol, mat1) else Some (vol, mat1)) of
           None \<Rightarrow> None
         | Some vm2 \<Rightarrow>
             (case (if snd vm2 ! ymaxi ! 1 < 0 then flip_y_fl vm2 else Some vm2) of
                None \<Rightarrow> None
              | Some vm3 \<Rightarrow> Some (fst vm3, map (map (\<lambda>e. if e = 0 then 0 else e)) (snd vm3))))"

text \<open>
  No update rounds, in this pass and in the next one, when the numbers that the updates
  compute from a row \<open>(c, d, _, t)\<close> of \<open>mat\<close> are float64 numbers, whichever flips
  are taken: the two extents less one, the products \<open>c * kx\<close> and \<open>d * ky\<close>, and
  \<open>t\<close> with none, one or both of the products added.
\<close>

definition exact_updates :: "volume \<Rightarrow> matrix \<Rightarrow> bool" where
  "exact_updates vol mat \<longleftrightarrow>
     (let kx = real_of_int (int (shape vol 2) - 1); ky = real_of_int (int (shape vol 1) - 1)
      in representable kx \<and> representable ky \<and>
         list_all (\<lambda>row. list_all representable
            [row ! 3, row ! 0 * kx, row ! 1 * ky, row ! 3 + row ! 0 * kx,
             row ! 3 + row ! 1 * ky, row ! 3 + row ! 0 * kx + row ! 1 * ky]) mat)"

section \<open>\<open>create_affine\<close> on a store\<close>

text \<open>
  Whether the function changes the arrays of its caller depends on which arrays share
  memory, so this second model keeps the arrays in a store: the buffer of every array
  that exists, in row-major order, at the index that is its address. \<open>alloc\<close> is what
  a numpy function that returns a new array does; a basic slice such as
  \<open>iop_average[0:3]\<close> or \<open>x[0,:]\<close> is a view, an address with an offset, and an
  assignment through it (\<open>u /= ...\<close>, \<open>u[...] = 0.0\<close>) writes into the buffer it
  names. \<open>np.linalg.lstsq\<close>, \<open>np.ones\<close>, \<open>np.mean\<close>, \<open>np.eye\<close> and
  \<open>np.hstack\<close> return new arrays; the arrays of intermediate expressions
  (\<open>ps - spacing[0:2]\<close>, \<open>u*spacing[0]\<close>, ...) are new as well, are dropped at once
  and are left out. The store holds real numbers: where the program divides by zero the
  store of the model holds the quotient as HOL defines it instead of NaN, so on such a run
  the model is right about where the program writes, not about what.
\<close>

type_synonym heap = "real list list"

definition alloc :: "heap \<Rightarrow> real list \<Rightarrow> nat \<times> heap" where
  "alloc h xs = (length h, h @ [xs])"

definition read_at :: "heap \<Rightarrow> nat \<Rightarrow> nat \<Rightarrow> nat \<Rightarrow> real list" where
  "read_at h a off len = take len (drop off (h ! a))"

definition write_at :: "heap \<Rightarrow> nat \<Rightarrow> nat \<Rightarrow> real list \<Rightarrow> heap" where
  "write_at h a off xs = h[a := take off (h ! a) @ xs @ drop (off + length xs) (h ! a)]"

text \<open>\<open>mat[0:3,j] = xs\<close> on the buffer of a 4x4 array\<close>

definition write_col :: "heap \<Rightarrow> nat \<Rightarrow> nat \<Rightarrow> real list \<Rightarrow> heap" where
  "write_col h a j xs = h[a := (h ! a)[j := xs ! 0, 4 + j := xs ! 1, 8 + j := xs ! 2]]"

text \<open>The rows of an Nx2, Nx3 and Nx6 array, read from its buffer.\<close>

definition rows2 :: "real list \<Rightarrow> (real \<times> real) list" where
  "rows2 b = map (\<lambda>i. (b ! (2 * i), b ! (2 * i + 1))) [0..<length b div 2]"

definition rows3 :: "real list \<Rightarrow> vec3 list" where
  "rows3 b = map (\<lambda>i. (b ! (3 * i), b ! (3 * i + 1), b ! (3 * i + 2))) [0..<length b div 3]"

definition rows6 :: "real list \<Rightarrow> (vec3 \<times> vec3) list" where
  "rows6 b = map (\<lambda>i. ((b ! (6 * i), b ! (6 * i + 1), b ! (6 * i + 2)),
                         (b ! (6 * i + 3), b ! (6 * i + 4), b ! (6 * i + 5))))
                 [0..<length b div 6]"

definition flat3 :: "vec3 \<Rightarrow> real list" where
  "flat3 a = (case a of (x, y, z) \<Rightarrow> [x, y, z])"

definition vec3_of :: "real list \<Rightarrow> vec3" where
  "vec3_of xs = (xs ! 0, xs ! 1, xs ! 2)"

text \<open>
  The function takes the addresses of \<open>ipp\<close>, \<open>iop\<close> and \<open>ps\<close> and returns the
  store after the call with the addresses of \<open>mat\<close> and \<open>pixdim\<close>, or the error
  raised. Each line is one statement of the source, in its order; the two writes to
  stderr are in the first model.
\<close>

definition create_affine_h :: "heap \<Rightarrow> nat \<Rightarrow> nat \<Rightarrow> nat \<Rightarrow> heap \<times> (py_error + nat \<times> nat)" where
  "create_affine_h h0 ipp iop ps =
     (let n = length (h0 ! ipp) div 3;
          (A, h1) = alloc h0 (concat (map (\<lambda>i. [real i, 1]) [0..<n]));
          (x, h2) = alloc h1 (flat3 (fst (lstsq (rows3 (h1 ! ipp))))
                               @ flat3 (snd (lstsq (rows3 (h1 ! ipp)))));
          h3 = write_at h2 x 0 (map snap (read_at h2 x 0 6));
          (spacing, h4) = alloc h3 [1, 1, 1]
      in if length (h4 ! ps) div 2 = 0 then (h4, Inl IndexError)
         else
           let h5 = write_at h4 spacing 0 (read_at h4 ps 0 2);
               h6 = write_at h5 spacing 2 [round7 (norm3 (vec3_of (read_at h5 x 0 3)))];
               (iop_average, h7) = alloc h6 (flat3 (fst (iop_mean (rows6 (h6 ! iop))))
                                              @ flat3 (snd (iop_mean (rows6 (h6 ! iop)))));
               h8 = write_at h7 iop_average 0
                      (map (\<lambda>c. c / norm3 (vec3_of (read_at h7 iop_average 0 3)))
                         (read_at h7 iop_average 0 3));
               h9 = write_at h8 iop_average 3
                      (map (\<lambda>c. c / norm3 (vec3_of (read_at h8 iop_average 3 3)))
                         (read_at h8 iop_average 3 3));
               h10 = write_at h9 iop_average 0 (map snap (read_at h9 iop_average 0 3));
               h11 = write_at h10 iop_average 3 (map snap (read_at h10 iop_average 3 3));
               (mat, h12) = alloc h11 (concat (eye 4));
               h13 = write_col h12 mat 0
                       (map (\<lambda>c. c * (h12 ! spacing ! 0)) (read_at h12 iop_average 0 3));
               h14 = write_col h13 mat 1
                       (map (\<lambda>c. c * (h13 ! spacing ! 1)) (read_at h13 iop_average 3 3));
               h15 = write_col h14 mat 2 (read_at h14 x 0 3);
               h16 = write_col h15 mat 3 (read_at h15 x 3 3);
               dv = dot3 (vec3_of (read_at h16 x 0 3))
                      (cross (vec3_of (read_at h16 iop_average 0 3))
                             (vec3_of (read_at h16 iop_average 3 3)));
               qfac = sgn dv;
               (pixdim, h17) = alloc h16 (qfac # read_at h16 spacing 0 3)
           in (h17, Inr (mat, pixdim)))"

text \<open>
  The store \<open>g\<close> is the store \<open>h\<close> with new arrays behind it: every array of \<open>h\<close>
  is in \<open>g\<close> at its address with its contents.
\<close>

definition extends :: "heap \<Rightarrow> heap \<Rightarrow> bool" where
  "extends h g \<longleftrightarrow> length h \<le> length g \<and> take (length h) g = h"

section \<open>The Series Loader: \<open>load_dicom_series\<close>\<close>

text \<open>
  A data set is what \<open>pydicom.dcmread\<close> returns. Its attribute \<open>InstanceNumber\<close> can
  be absent (reading it raises AttributeError), hold a string that \<open>int\<close> rejects
  (ValueError), hold a value that \<open>int\<close> does not take at all (TypeError: pydicom gives
  \<open>None\<close> for an element that is present and empty, and a \<open>MultiValue\<close> for an
  element with several values), or hold an integer; the other attributes are the rest of
  the record. A file is readable, and then stands for its data set, or is not, and then
  \<open>dcmread\<close> raises.
\<close>

datatype instance_attr = Absent | Malformed | Unconvertible | Value int

record dataset =
  InstanceNumber :: instance_attr

datatype 'a dicom_file = Unreadable | Readable 'a

text \<open>
  \<^verbatim>\<open>
  try:
      i = int(ds.InstanceNumber)
  except (AttributeError, ValueError):
      i = -1
  \<close>
  The clause catches two exceptions; a TypeError leaves the statement and the function.
\<close>

definition instance_key :: "'a dataset_scheme \<Rightarrow> py_error + int" where
  "instance_key ds =
     (case InstanceNumber ds of
        Absent \<Rightarrow> Inr (- 1)
      | Malformed \<Rightarrow> Inr (- 1)
      | Unconvertible \<Rightarrow> Inl TypeError
      | Value i \<Rightarrow> Inr i)"

text \<open>
  The loop over \<open>files\<close> that builds \<open>dataset_list\<close>. It runs over \<open>files\<close> in the
  order given: the function also computes \<open>sorted_files = sorted(files)\<close> and never
  uses it. The first file that raises ends the loop.
\<close>

fun read_all :: "'a dataset_scheme dicom_file list \<Rightarrow> py_error + (int \<times> 'a dataset_scheme) list" where
  "read_all [] = Inr []"
| "read_all (f # fs) =
     (case f of
        Unreadable \<Rightarrow> Inl InvalidDicomError
      | Readable ds \<Rightarrow>
          (case instance_key ds of
             Inl e \<Rightarrow> Inl e
           | Inr i \<Rightarrow>
               (case read_all fs of
                  Inl e \<Rightarrow> Inl e
                | Inr dataset_list \<Rightarrow> Inr ((i, ds) # dataset_list))))"

text \<open>
  \<open>dataset_list.sort(key=lambda t: t[0])\<close> is Python's sort, which is stable, as the
  insertion sort \<open>sort_key\<close> of the HOL library is.
\<close>

definition load_dicom_series :: "'a dataset_scheme dicom_file list \<Rightarrow> py_error + 'a dataset_scheme list" where
  "load_dicom_series files =
     (case read_all files of
        Inl e \<Rightarrow> Inl e
      | Inr dataset_list \<Rightarrow> Inr (map snd (sort_key fst dataset_list)))"

section \<open>Facts about the arrays\<close>

lemma is_mat4_rows:
  assumes "is_mat4 m"
  obtains r0 r1 r2 r3 where "m = [r0, r1, r2, r3]"
    "length r0 = 4" "length r1 = 4" "length r2 = 4" "length r3 = 4"
proof -
  from assms have len: "length m = 4" and all: "list_all (\<lambda>r. length r = 4) m"
    by (simp_all add: is_mat4_def)
  from len obtain r0 r1 r2 r3 where m: "m = [r0, r1, r2, r3]"
    by (auto simp: length_Suc_conv eval_nat_numeral)
  with all that show thesis by simp
qed

lemma length4_explode:
  assumes "length (r :: 'a list) = 4"
  obtains a b c d where "r = [a, b, c, d]"
  using assms by (auto simp: length_Suc_conv eval_nat_numeral)

lemma is_mat4_explode:
  assumes "is_mat4 m"
  obtains a0 a1 a2 a3 b0 b1 b2 b3 c0 c1 c2 c3 d0 d1 d2 d3 where
    "m = [[a0, a1, a2, a3], [b0, b1, b2, b3], [c0, c1, c2, c3], [d0, d1, d2, d3]]"
proof -
  from assms obtain r0 r1 r2 r3 where m: "m = [r0, r1, r2, r3]"
    and l: "length r0 = 4" "length r1 = 4" "length r2 = 4" "length r3 = 4"
    by (rule is_mat4_rows)
  from l(1) obtain a0 a1 a2 a3 where "r0 = [a0, a1, a2, a3]" by (rule length4_explode)
  moreover from l(2) obtain b0 b1 b2 b3 where "r1 = [b0, b1, b2, b3]" by (rule length4_explode)
  moreover from l(3) obtain c0 c1 c2 c3 where "r2 = [c0, c1, c2, c3]" by (rule length4_explode)
  moreover from l(4) obtain d0 d1 d2 d3 where "r3 = [d0, d1, d2, d3]" by (rule length4_explode)
  ultimately show thesis using m that by blast
qed

lemma convmat_eq:
  "convmat = [[- 1, 0, 0, 0], [0, - 1, 0, 0], [0, 0, 1, 0], [0, 0, 0, 1]]"
  by (simp add: convmat_def eye_def set_entry_def upt_conv_Cons)

lemma dot_convmat:
  "dot convmat [[a0, a1, a2, a3], [b0, b1, b2, b3], [c0, c1, c2, c3], [d0, d1, d2, d3]] =
     [[- a0, - a1, - a2, - a3], [- b0, - b1, - b2, - b3], [c0, c1, c2, c3], [d0, d1, d2, d3]]"
  by (simp add: convmat_eq dot_def ncols_def column_def upt_conv_Cons)

lemma argmax_from_inv:
  assumes "ys = pre @ xs" "length pre = i" "best < i" "bv = ys ! best"
    "\<forall>j<i. ys ! j \<le> bv"
  shows "argmax_from best bv i xs < length ys \<and>
         (\<forall>j<length ys. ys ! j \<le> ys ! argmax_from best bv i xs)"
  using assms
proof (induction xs arbitrary: best bv i pre)
  case Nil
  then show ?case by simp
next
  case (Cons x xs)
  have x: "ys ! i = x" using Cons.prems by (simp add: nth_append)
  have ys: "ys = (pre @ [x]) @ xs" "length (pre @ [x]) = Suc i" using Cons.prems by simp_all
  show ?case
  proof (cases "bv < x")
    case True
    have "\<forall>j<Suc i. ys ! j \<le> x"
      using Cons.prems(5) True x by (auto simp: less_Suc_eq)
    from Cons.IH[OF ys(1) ys(2) _ _ this, of i] x True show ?thesis by simp
  next
    case False
    have "\<forall>j<Suc i. ys ! j \<le> bv"
      using Cons.prems(5) False x by (auto simp: less_Suc_eq)
    from Cons.IH[OF ys(1) ys(2) _ Cons.prems(4) this] Cons.prems(3) False show ?thesis by simp
  qed
qed

lemma argmax_props:
  assumes "xs \<noteq> []"
  shows "argmax xs < length xs" and "j < length xs \<Longrightarrow> xs ! j \<le> xs ! argmax xs"
proof -
  from assms obtain x xs' where xs: "xs = x # xs'" by (cases xs) auto
  have "argmax_from 0 x 1 xs' < length xs \<and>
         (\<forall>j<length xs. xs ! j \<le> xs ! argmax_from 0 x 1 xs')"
    by (rule argmax_from_inv[where pre = "[x]"]) (simp_all add: xs)
  then show "argmax xs < length xs" and "j < length xs \<Longrightarrow> xs ! j \<le> xs ! argmax xs"
    by (simp_all add: argmax_def xs)
qed

lemma flip_x_explicit:
  "flip_x (vol, [[a0, a1, a2, a3], [b0, b1, b2, b3], [c0, c1, c2, c3], [d0, d1, d2, d3]]) =
     (flip vol 2,
      (let k = of_int (int (shape (flip vol 2) 2) - 1) in
       [[- a0, a1, a2, a3 + a0 * k], [- b0, b1, b2, b3 + b0 * k],
        [- c0, c1, c2, c3 + c0 * k], [- d0, d1, d2, d3 + d0 * k]]))"
  by (simp add: flip_x_def add_scaled_col_def negate_col_def Let_def)

lemma flip_y_explicit:
  "flip_y (vol, [[a0, a1, a2, a3], [b0, b1, b2, b3], [c0, c1, c2, c3], [d0, d1, d2, d3]]) =
     (flip vol 1,
      (let k = of_int (int (shape (flip vol 1) 1) - 1) in
       [[a0, - a1, a2, a3 + a1 * k], [b0, - b1, b2, b3 + b1 * k],
        [c0, - c1, c2, c3 + c1 * k], [d0, - d1, d2, d3 + d1 * k]]))"
  by (simp add: flip_y_def add_scaled_col_def negate_col_def Let_def)

lemma fix_zero_id: "map (map (\<lambda>e::real. if e = 0 then 0 else e)) m = m"
proof -
  have "(\<lambda>e::real. if e = 0 then 0 else e) = (\<lambda>e. e)" by auto
  then show ?thesis by (simp add: map_idI)
qed

lemma column_nth: "k < length m \<Longrightarrow> column m j ! k = m ! k ! j"
  by (simp add: column_def)

lemma length_column [simp]: "length (column m j) = length m"
  by (simp add: column_def)

lemma is_mat4_dot_convmat: "is_mat4 m \<Longrightarrow> is_mat4 (dot convmat m)"
  by (erule is_mat4_explode) (simp add: dot_convmat is_mat4_def)

lemma flip_x_columns:
  assumes "is_mat4 (snd vm)"
  shows "column (snd (flip_x vm)) 0 = map uminus (column (snd vm) 0)"
    and "column (snd (flip_x vm)) 1 = column (snd vm) 1"
    and "column (snd (flip_x vm)) 2 = column (snd vm) 2"
    and "is_mat4 (snd (flip_x vm))"
proof -
  obtain vol m where vm: "vm = (vol, m)" by (cases vm)
  with assms have "is_mat4 m" by simp
  then obtain a0 a1 a2 a3 b0 b1 b2 b3 c0 c1 c2 c3 d0 d1 d2 d3 where
    "m = [[a0, a1, a2, a3], [b0, b1, b2, b3], [c0, c1, c2, c3], [d0, d1, d2, d3]]"
    by (rule is_mat4_explode)
  with vm show "column (snd (flip_x vm)) 0 = map uminus (column (snd vm) 0)"
    and "column (snd (flip_x vm)) 1 = column (snd vm) 1"
    and "column (snd (flip_x vm)) 2 = column (snd vm) 2"
    and "is_mat4 (snd (flip_x vm))"
    by (simp_all add: flip_x_explicit Let_def column_def is_mat4_def)
qed

lemma flip_y_columns:
  assumes "is_mat4 (snd vm)"
  shows "column (snd (flip_y vm)) 0 = column (snd vm) 0"
    and "column (snd (flip_y vm)) 1 = map uminus (column (snd vm) 1)"
    and "column (snd (flip_y vm)) 2 = column (snd vm) 2"
    and "is_mat4 (snd (flip_y vm))"
proof -
  obtain vol m where vm: "vm = (vol, m)" by (cases vm)
  with assms have "is_mat4 m" by simp
  then obtain a0 a1 a2 a3 b0 b1 b2 b3 c0 c1 c2 c3 d0 d1 d2 d3 where
    "m = [[a0, a1, a2, a3], [b0, b1, b2, b3], [c0, c1, c2, c3], [d0, d1, d2, d3]]"
    by (rule is_mat4_explode)
  with vm show "column (snd (flip_y vm)) 0 = column (snd vm) 0"
    and "column (snd (flip_y vm)) 1 = map uminus (column (snd vm) 1)"
    and "column (snd (flip_y vm)) 2 = column (snd vm) 2"
    and "is_mat4 (snd (flip_y vm))"
    by (simp_all add: flip_y_explicit Let_def column_def is_mat4_def)
qed

lemma argmax_less_4:
  assumes "length xs = 4"
  shows "argmax xs < 4"
proof -
  from assms have "xs \<noteq> []" by auto
  from argmax_props(1)[OF this] assms show ?thesis by simp
qed

lemma xmaxi_of_less: "is_mat4 m \<Longrightarrow> xmaxi_of m < 4"
  unfolding xmaxi_of_def by (rule argmax_less_4) (simp add: is_mat4_def)

lemma ymaxi_of_less: "is_mat4 m \<Longrightarrow> ymaxi_of m < 4"
  unfolding ymaxi_of_def by (rule argmax_less_4) (simp add: is_mat4_def)

lemma maxi_of_cong:
  assumes "map abs (column m' 0) = map abs (column m 0)"
    and "map abs (column m' 1) = map abs (column m 1)"
  shows "xmaxi_of m' = xmaxi_of m" and "ymaxi_of m' = ymaxi_of m"
  using assms by (simp_all add: xmaxi_of_def ymaxi_of_def)

text \<open>The effect of the two guarded flips on the first three columns.\<close>

lemma convert_coords_columns:
  fixes vol :: volume and mat :: matrix
  assumes m: "is_mat4 mat"
  defines "m1 \<equiv> dot convmat mat"
  defines "m' \<equiv> snd (convert_coords vol mat)"
  shows "is_mat4 m'"
    and "column m' 0 = (if m1 ! xmaxi_of m1 ! 0 < 0 then map uminus (column m1 0) else column m1 0)"
    and "column m' 1 = (if m1 ! ymaxi_of m1 ! 1 < 0 then map uminus (column m1 1) else column m1 1)"
    and "column m' 2 = column m1 2"
proof -
  have m1: "is_mat4 m1" unfolding m1_def using m by (rule is_mat4_dot_convmat)
  define vm2 where "vm2 = (if m1 ! xmaxi_of m1 ! 0 < 0 then flip_x (vol, m1) else (vol, m1))"
  define vm3 where "vm3 = (if snd vm2 ! ymaxi_of m1 ! 1 < 0 then flip_y vm2 else vm2)"
  have m': "m' = snd vm3"
    by (simp add: m'_def convert_coords_def Let_def fix_zero_id vm3_def vm2_def m1_def)
  have 2: "is_mat4 (snd vm2)" "column (snd vm2) 1 = column m1 1"
    "column (snd vm2) 2 = column m1 2"
    "column (snd vm2) 0 = (if m1 ! xmaxi_of m1 ! 0 < 0 then map uminus (column m1 0) else column m1 0)"
    using m1 by (simp_all add: vm2_def flip_x_columns del: One_nat_def)
  have l: "ymaxi_of m1 < length (snd vm2)" "ymaxi_of m1 < length m1"
    using ymaxi_of_less[OF m1] 2(1) m1 by (simp_all add: is_mat4_def)
  have e: "snd vm2 ! ymaxi_of m1 ! 1 = m1 ! ymaxi_of m1 ! 1"
    using column_nth[OF l(1), of 1] column_nth[OF l(2), of 1] 2(2) by simp
  have 3: "vm3 = (if m1 ! ymaxi_of m1 ! 1 < 0 then flip_y vm2 else vm2)"
    unfolding vm3_def e by simp
  show "is_mat4 m'" using 2(1) by (simp add: m' 3 flip_y_columns del: One_nat_def)
  show "column m' 0 = (if m1 ! xmaxi_of m1 ! 0 < 0 then map uminus (column m1 0) else column m1 0)"
    using 2(1) 2(4) by (simp add: m' 3 flip_y_columns del: One_nat_def)
  show "column m' 1 = (if m1 ! ymaxi_of m1 ! 1 < 0 then map uminus (column m1 1) else column m1 1)"
    using 2(1) 2(2) by (simp add: m' 3 flip_y_columns del: One_nat_def)
  show "column m' 2 = column m1 2"
    using 2(1) 2(3) by (simp add: m' 3 flip_y_columns del: One_nat_def)
qed

lemma shape_flip2: "shape (flip vol 2) ax = shape vol ax"
  by (cases vol; cases "hd vol") (auto simp: shape_def flip_def)

lemma shape_flip1_01: "ax < 2 \<Longrightarrow> shape (flip vol (Suc 0)) ax = shape vol ax"
  by (cases vol) (auto simp: shape_def flip_def)

lemma rectangular_nth:
  assumes "rectangular vol" "s < shape vol 0"
  shows "length (vol ! s) = shape vol 1"
    and "r < shape vol 1 \<Longrightarrow> length (vol ! s ! r) = shape vol 2"
proof -
  from assms have s: "vol ! s \<in> set vol" by (simp add: shape_def)
  with assms(1) show 1: "length (vol ! s) = shape vol 1"
    by (simp add: rectangular_def list_all_iff)
  assume "r < shape vol 1"
  with 1 have "vol ! s ! r \<in> set (vol ! s)" by simp
  with s assms(1) show "length (vol ! s ! r) = shape vol 2"
    by (auto simp: rectangular_def list_all_iff)
qed

lemma shape_flip1:
  assumes "rectangular vol"
  shows "shape (flip vol (Suc 0)) ax = shape vol ax"
proof (cases vol)
  case Nil
  then show ?thesis by (simp add: shape_def flip_def)
next
  case (Cons s0 ss)
  show ?thesis
  proof (cases s0 rule: rev_cases)
    case Nil
    with Cons show ?thesis by (simp add: shape_def flip_def)
  next
    case (snoc rs r)
    from assms Cons snoc have "length r = shape vol 2"
      by (simp add: rectangular_def)
    with Cons snoc show ?thesis
      by (auto simp: shape_def flip_def)
  qed
qed

lemma rectangular_flip2: "rectangular vol \<Longrightarrow> rectangular (flip vol 2)"
  unfolding rectangular_def shape_flip2
  by (simp add: flip_def list_all_iff)

lemma rectangular_flip1: 
  assumes "rectangular vol" shows "rectangular (flip vol (Suc 0))"
  using assms unfolding rectangular_def shape_flip1[OF assms]
  by (simp add: flip_def list_all_iff)

lemma flip2_nth:
  assumes "rectangular vol" "s < shape vol 0" "r < shape vol 1" "c < shape vol 2"
  shows "flip vol 2 ! s ! r ! (shape vol 2 - 1 - c) = vol ! s ! r ! c"
proof -
  have l: "length (vol ! s) = shape vol 1" "length (vol ! s ! r) = shape vol 2"
    using rectangular_nth[OF assms(1,2)] assms(3) by simp_all
  have "flip vol 2 ! s ! r = rev (vol ! s ! r)"
    using assms(2,3) l by (simp add: flip_def shape_def)
  then show ?thesis using assms(4) l by (simp add: rev_nth)
qed

lemma flip1_nth:
  assumes "rectangular vol" "s < shape vol 0" "r < shape vol 1"
  shows "flip vol 1 ! s ! (shape vol 1 - 1 - r) = vol ! s ! r"
proof -
  have l: "length (vol ! s) = shape vol 1"
    using rectangular_nth[OF assms(1,2)] by simp
  have "flip vol 1 ! s = rev (vol ! s)"
    using assms(2) by (simp add: flip_def shape_def)
  then show ?thesis using assms(3) l by (simp add: rev_nth)
qed

lemma nth4_cases:
  assumes "k < (4::nat)"
  obtains "k = 0" | "k = 1" | "k = 2" | "k = 3"
  using assms by arith

lemma entry_explicit:
  assumes "k < 4"
  shows "[[a0, a1, a2, a3], [b0, b1, b2, b3], [c0, c1, c2, c3], [d0, d1, d2, d3]] ! k ! 0
           = [a0, b0, c0, d0] ! k"
    and "[[a0, a1, a2, a3], [b0, b1, b2, b3], [c0, c1, c2, c3], [d0, d1, d2, d3]] ! k ! Suc 0
           = [a1, b1, c1, d1] ! k"
  using assms by (auto elim!: nth4_cases)

lemma maxi_of_explicit:
  "xmaxi_of [[a0, a1, a2, a3], [b0, b1, b2, b3], [c0, c1, c2, c3], [d0, d1, d2, d3]] =
     argmax [\<bar>a0\<bar>, \<bar>b0\<bar>, \<bar>c0\<bar>, \<bar>d0\<bar>]"
  "ymaxi_of [[a0, a1, a2, a3], [b0, b1, b2, b3], [c0, c1, c2, c3], [d0, d1, d2, d3]] =
     argmax ([\<bar>a1\<bar>, \<bar>b1\<bar>, \<bar>c1\<bar>, \<bar>d1\<bar>]
       [argmax [\<bar>a0\<bar>, \<bar>b0\<bar>, \<bar>c0\<bar>, \<bar>d0\<bar>] := 0])"
  by (simp_all add: xmaxi_of_def ymaxi_of_def column_def del: list_update.simps)

lemma convert_coords_explicit:
  fixes vol :: volume and a0 a1 a2 a3 b0 b1 b2 b3 c0 c1 c2 c3 d0 d1 d2 d3 :: real
  assumes mat_def: "mat = [[a0, a1, a2, a3], [b0, b1, b2, b3], [c0, c1, c2, c3], [d0, d1, d2, d3]]"
  assumes fx_def: "fx \<longleftrightarrow> [- a0, - b0, c0, d0] ! xmaxi_of mat < 0"
  assumes fy_def: "fy \<longleftrightarrow> [- a1, - b1, c1, d1] ! ymaxi_of mat < 0"
  assumes kx_def: "kx = (if fx then real_of_int (int (shape vol 2) - 1) else 0)"
  assumes ky_def: "ky = (if fy then real_of_int (int (shape vol 1) - 1) else 0)"
  assumes sx_def: "sx = (if fx then 1 else - 1)"
  assumes sy_def: "sy = (if fy then 1 else - 1)"
  assumes vol2_def: "vol2 = (if fx then flip vol 2 else vol)"
  shows "convert_coords vol mat =
     (if fy then flip vol2 1 else vol2,
      [[sx * a0, sy * a1, - a2, - a3 - a0 * kx - a1 * ky],
       [sx * b0, sy * b1, - b2, - b3 - b0 * kx - b1 * ky],
       [- sx * c0, - sy * c1, c2, c3 + c0 * kx + c1 * ky],
       [- sx * d0, - sy * d1, d2, d3 + d0 * kx + d1 * ky]])"
proof -
  define m1 where "m1 = dot convmat mat"
  have m1: "m1 = [[- a0, - a1, - a2, - a3], [- b0, - b1, - b2, - b3],
                  [c0, c1, c2, c3], [d0, d1, d2, d3]]"
    by (simp add: m1_def mat_def dot_convmat)
  have k: "xmaxi_of m1 = xmaxi_of mat" and l: "ymaxi_of m1 = ymaxi_of mat"
    unfolding m1 mat_def maxi_of_explicit by simp_all
  have k4: "xmaxi_of mat < 4" and l4: "ymaxi_of mat < 4"
    by (simp_all add: xmaxi_of_less ymaxi_of_less mat_def is_mat4_def)
  have ex: "m1 ! xmaxi_of mat ! 0 < 0 \<longleftrightarrow> fx"
    unfolding m1 fx_def entry_explicit(1)[OF k4] ..
  have ey: "m1 ! ymaxi_of mat ! Suc 0 < 0 \<longleftrightarrow> fy"
    unfolding m1 fy_def entry_explicit(2)[OF l4] ..
  define vm2 where "vm2 = (if fx then flip_x (vol, m1) else (vol, m1))"
  have vm2: "vm2 = (vol2, [[- sx * - a0, - a1, - a2, - a3 - a0 * kx],
                  [- sx * - b0, - b1, - b2, - b3 - b0 * kx],
                  [- sx * c0, c1, c2, c3 + c0 * kx], [- sx * d0, d1, d2, d3 + d0 * kx]])"
    by (simp add: vm2_def m1 flip_x_explicit Let_def shape_flip2 vol2_def sx_def kx_def)
  have ey2: "snd vm2 ! ymaxi_of mat ! Suc 0 < 0 \<longleftrightarrow> fy"
    unfolding vm2 snd_conv fy_def entry_explicit(2)[OF l4] ..
  have sh: "shape vol2 (Suc 0) = shape vol (Suc 0)"
    by (simp add: vol2_def shape_flip2)
  have "convert_coords vol mat = (if fy then flip_y vm2 else vm2)"
    unfolding convert_coords_def Let_def m1_def[symmetric] k l
    by (simp add: ex ey2 vm2_def[symmetric] fix_zero_id)
  also have "\<dots> = (if fy then flip vol2 1 else vol2,
      [[sx * a0, sy * a1, - a2, - a3 - a0 * kx - a1 * ky],
       [sx * b0, sy * b1, - b2, - b3 - b0 * kx - b1 * ky],
       [- sx * c0, - sy * c1, c2, c3 + c0 * kx + c1 * ky],
       [- sx * d0, - sy * d1, d2, d3 + d0 * kx + d1 * ky]])"
    by (simp add: vm2 flip_y_explicit Let_def shape_flip1_01 sh sy_def ky_def)
  finally show ?thesis .
qed

lemma flip_flip: "flip (flip vol 2) 2 = vol" "flip (flip vol (Suc 0)) (Suc 0) = vol"
  by (simp_all add: flip_def o_def)

lemma flip_commute: "flip (flip vol 2) (Suc 0) = flip (flip vol (Suc 0)) 2"
  by (simp add: flip_def rev_map)

lemma second_pass_guard:
  assumes "k < 4" "0 \<le> [a, b, c, d] ! k"
    and "fx \<longleftrightarrow> [- a, - b, c, d] ! k < 0" and "sx = (if fx then 1 else - (1::real))"
  shows "[- (sx * a), - (sx * b), - sx * c, - sx * d] ! k < 0 \<longleftrightarrow> fx"
  using assms by (auto elim!: nth4_cases)

lemma convert_coords_dominant:
  assumes m: "is_mat4 mat" and cc: "convert_coords vol mat = (vol', mat')"
  shows "0 \<le> mat' ! xmaxi_of mat' ! 0 \<and> 0 \<le> mat' ! ymaxi_of mat' ! 1 \<and>
         xmaxi_of mat' = xmaxi_of (dot convmat mat) \<and>
         ymaxi_of mat' = ymaxi_of (dot convmat mat) \<and>
         xmaxi_of mat' < 4 \<and> ymaxi_of mat' < 4"
proof -
  define m1 where "m1 = dot convmat mat"
  have mat': "mat' = snd (convert_coords vol mat)" using cc by simp
  note cols = convert_coords_columns[OF m, of vol, folded mat' m1_def]
  have m1: "is_mat4 m1" unfolding m1_def using m by (rule is_mat4_dot_convmat)
  have a0: "map abs (column mat' 0) = map abs (column m1 0)"
    and a1: "map abs (column mat' 1) = map abs (column m1 1)"
    by (simp_all add: cols o_def del: One_nat_def)
  note same = maxi_of_cong[OF a0 a1]
  have k: "xmaxi_of m1 < length mat'" "xmaxi_of m1 < length m1"
    and l: "ymaxi_of m1 < length mat'" "ymaxi_of m1 < length m1"
    using xmaxi_of_less[OF m1] ymaxi_of_less[OF m1] cols(1) m1 by (simp_all add: is_mat4_def)
  have "mat' ! xmaxi_of m1 ! 0 = column mat' 0 ! xmaxi_of m1"
    using k by (simp add: column_nth)
  also have "\<dots> \<ge> 0"
    using k(2) by (simp add: cols(2) column_nth)
  finally have x: "0 \<le> mat' ! xmaxi_of m1 ! 0" .
  have "mat' ! ymaxi_of m1 ! 1 = column mat' 1 ! ymaxi_of m1"
    using l by (simp add: column_nth)
  also have "\<dots> \<ge> 0"
    using l(2) by (simp add: cols(3) column_nth del: One_nat_def)
  finally have y: "0 \<le> mat' ! ymaxi_of m1 ! 1" .
  show ?thesis
    using x y same xmaxi_of_less[OF m1] ymaxi_of_less[OF m1] by (simp add: m1_def)
qed

lemma convert_coords_twice:
  assumes m: "is_mat4 mat" and r: "rectangular vol"
    and x: "0 \<le> mat ! xmaxi_of mat ! 0" and y: "0 \<le> mat ! ymaxi_of mat ! 1"
  shows "convert_coords (fst (convert_coords vol mat)) (snd (convert_coords vol mat))
           = (vol, mat)"
proof -
  from m obtain a0 a1 a2 a3 b0 b1 b2 b3 c0 c1 c2 c3 d0 d1 d2 d3 where
    mat: "mat = [[a0, a1, a2, a3], [b0, b1, b2, b3], [c0, c1, c2, c3], [d0, d1, d2, d3]]"
    by (rule is_mat4_explode)
  have k4: "xmaxi_of mat < 4" and l4: "ymaxi_of mat < 4"
    using m by (simp_all add: xmaxi_of_less ymaxi_of_less)
  define fx where "fx \<longleftrightarrow> [- a0, - b0, c0, d0] ! xmaxi_of mat < 0"
  define fy where "fy \<longleftrightarrow> [- a1, - b1, c1, d1] ! ymaxi_of mat < 0"
  define kx where "kx = (if fx then real_of_int (int (shape vol 2) - 1) else 0)"
  define ky where "ky = (if fy then real_of_int (int (shape vol 1) - 1) else 0)"
  define sx :: real where "sx = (if fx then 1 else - 1)"
  define sy :: real where "sy = (if fy then 1 else - 1)"
  define vol2 where "vol2 = (if fx then flip vol 2 else vol)"
  define vol3 where "vol3 = (if fy then flip vol2 1 else vol2)"
  define mat' where "mat' =
      [[sx * a0, sy * a1, - a2, - a3 - a0 * kx - a1 * ky],
       [sx * b0, sy * b1, - b2, - b3 - b0 * kx - b1 * ky],
       [- sx * c0, - sy * c1, c2, c3 + c0 * kx + c1 * ky],
       [- sx * d0, - sy * d1, d2, d3 + d0 * kx + d1 * ky]]"
  have 1: "convert_coords vol mat = (vol3, mat')"
    unfolding vol3_def mat'_def
    by (rule convert_coords_explicit[OF mat fx_def fy_def kx_def ky_def sx_def sy_def vol2_def])
  have sabs: "\<bar>sx\<bar> = 1" "\<bar>sy\<bar> = 1" by (simp_all add: sx_def sy_def)
  have k': "xmaxi_of mat' = xmaxi_of mat" and l': "ymaxi_of mat' = ymaxi_of mat"
    unfolding mat mat'_def maxi_of_explicit by (simp_all add: abs_mult sabs)
  have x': "0 \<le> [a0, b0, c0, d0] ! xmaxi_of mat"
    using x unfolding mat entry_explicit(1)[OF k4[unfolded mat]] .
  have y': "0 \<le> [a1, b1, c1, d1] ! ymaxi_of mat"
    using y unfolding mat One_nat_def entry_explicit(2)[OF l4[unfolded mat]] .
  have fx': "fx \<longleftrightarrow> [- (sx * a0), - (sx * b0), - sx * c0, - sx * d0] ! xmaxi_of mat' < 0"
    unfolding k' using second_pass_guard[OF k4 x' fx_def sx_def] by simp
  have fy': "fy \<longleftrightarrow> [- (sy * a1), - (sy * b1), - sy * c1, - sy * d1] ! ymaxi_of mat' < 0"
    unfolding l' using second_pass_guard[OF l4 y' fy_def sy_def] by simp
  have r2: "rectangular vol2" using r by (simp add: vol2_def rectangular_flip2)
  have sh: "shape vol3 ax = shape vol ax" for ax
    by (simp add: vol3_def vol2_def shape_flip1[OF r2, unfolded vol2_def] shape_flip2
        shape_flip1[OF r])
  have kx': "kx = (if fx then real_of_int (int (shape vol3 2) - 1) else 0)"
    and ky': "ky = (if fy then real_of_int (int (shape vol3 1) - 1) else 0)"
    by (simp_all add: kx_def ky_def sh)
  define vol4 where "vol4 = (if fx then flip vol3 2 else vol3)"
  have 2: "convert_coords vol3 mat' = (if fy then flip vol4 1 else vol4,
      [[sx * (sx * a0), sy * (sy * a1), - (- a2),
          - (- a3 - a0 * kx - a1 * ky) - (sx * a0) * kx - (sy * a1) * ky],
       [sx * (sx * b0), sy * (sy * b1), - (- b2),
          - (- b3 - b0 * kx - b1 * ky) - (sx * b0) * kx - (sy * b1) * ky],
       [- sx * (- sx * c0), - sy * (- sy * c1), c2,
          (c3 + c0 * kx + c1 * ky) + (- sx * c0) * kx + (- sy * c1) * ky],
       [- sx * (- sx * d0), - sy * (- sy * d1), d2,
          (d3 + d0 * kx + d1 * ky) + (- sx * d0) * kx + (- sy * d1) * ky]])"
    by (rule convert_coords_explicit[OF mat'_def fx' fy' kx' ky' sx_def sy_def vol4_def])
  have v: "(if fy then flip vol4 1 else vol4) = vol"
    by (simp add: vol4_def vol3_def vol2_def flip_flip flip_commute)
  have z: "kx * sx = kx" "ky * sy = ky"
    by (simp_all add: kx_def ky_def sx_def sy_def)
  have ss: "sx * sx = 1" "sy * sy = 1"
    by (simp_all add: sx_def sy_def)
  have "convert_coords vol3 mat' = (vol, mat)"
    unfolding 2 v mat by (simp add: algebra_simps z ss)
  then show ?thesis by (simp add: 1)
qed

lemma maxi_distinct:
  assumes m: "is_mat4 m" and j: "j < 4" "j \<noteq> xmaxi_of m" "m ! j ! 1 \<noteq> 0"
  shows "xmaxi_of m \<noteq> ymaxi_of m"
proof
  assume eq: "xmaxi_of m = ymaxi_of m"
  define zs where "zs = (map abs (column m 1))[xmaxi_of m := 0]"
  have len: "length zs = 4" using m by (simp add: zs_def is_mat4_def)
  then have ne: "zs \<noteq> []" by auto
  have k: "xmaxi_of m < 4" using m by (rule xmaxi_of_less)
  have "zs ! j = \<bar>m ! j ! 1\<bar>"
    using j m by (simp add: zs_def column_def is_mat4_def)
  then have pos: "0 < zs ! j" using j(3) by simp
  have "zs ! j \<le> zs ! argmax zs"
    using argmax_props(2)[OF ne, of j] j(1) len by simp
  moreover have "zs ! argmax zs = 0"
    using eq k len by (simp add: ymaxi_of_def zs_def[symmetric]) (simp add: zs_def)
  ultimately show False using pos by simp
qed

section \<open>Facts about the fit and the rounding\<close>










section \<open>Facts about \<open>create_affine\<close>\<close>

lemmas ca_eval = create_affine_def fit_positions_def lstsq_def lstsq_line_def orientation_def iop_mean_def
  normalize3_def norm3_def dot3_def cross_def vmap_def vsum_def snap_def round7_def rint_def
  assemble_def Let_def

lemma snap_cases: "snap x = 0 \<or> 1 / 10 ^ 6 \<le> \<bar>snap x\<bar>"
  by (auto simp: snap_def)



lemma create_affine_Returns:
  assumes "ps = ps0 # rest" "orientation iop = Some (u, v)"
  shows "create_affine ipp iop ps =
     Returns \<lparr>affine = assemble (vmap (\<lambda>x. x * fst ps0) u) (vmap (\<lambda>x. x * snd ps0) v)
                           (fst (fit_positions ipp)) (snd (fit_positions ipp)),
              pixdim = [sgn (dot3 (fst (fit_positions ipp)) (cross u v)), fst ps0, snd ps0,
                        round7 (norm3 (fst (fit_positions ipp)))],
              stderr =
                (if fst ps0 * (1 / 10 ^ 6) < (\<Sum>p\<leftarrow>ps. \<bar>fst p - fst ps0\<bar> + \<bar>snd p - snd ps0\<bar>)
                 then [spacing_msg] else []) @
                (if 1 / 10 ^ 6 < \<bar>sgn (dot3 (fst (fit_positions ipp)) (cross u v))
                                    * dot3 (fst (fit_positions ipp)) (cross u v)
                                  - round7 (norm3 (fst (fit_positions ipp)))\<bar>
                 then [orthogonal_msg] else [])\<rparr>"
  using assms by (simp add: create_affine_def Let_def split: prod.splits)


lemma create_affine_Raises: "create_affine ipp iop [] = Raises IndexError"
  by (simp add: create_affine_def split: prod.splits)



lemma sgn_cases_real: "sgn (x::real) = - 1 \<or> sgn x = 0 \<or> sgn x = 1"
  by (auto simp: sgn_real_def)

lemma snapped3_vmap_snap: "snapped3 (vmap snap a)"
  using snap_cases by (cases a) (simp add: snapped3_def vmap_def)

lemma orientation_snapped:
  assumes "orientation iop = Some (u, v)"
  shows "snapped3 u" and "snapped3 v"
  using assms
  by (auto simp: orientation_def iop_mean_def Let_def snapped3_vmap_snap split: if_splits option.splits)

lemma fit_positions_snapped: "snapped3 (fst (fit_positions ipp))" "snapped3 (snd (fit_positions ipp))"
  by (simp_all add: fit_positions_def lstsq_def snapped3_vmap_snap split: prod.splits)

lemma eliminate_negzero_no_negzero:
  assumes "row \<in> set (eliminate_negzero m)" "e \<in> set row"
  shows "e \<noteq> NegZero"
  using assms by (auto simp: eliminate_negzero_def fp_eq_def fp_val_def)

lemma eliminate_negzero_val:
  "map (map fp_val) (eliminate_negzero m) = map (map fp_val) m"
  by (auto simp: eliminate_negzero_def fp_eq_def fp_val_def)









lemma fit_positions_with_lstsq: "fit_positions_with lstsq = fit_positions"
  by (rule ext) (simp add: fit_positions_with_def fit_positions_def)

lemma create_affine_with_lstsq: "create_affine_with lstsq = create_affine"
  by (intro ext) (simp add: create_affine_with_def create_affine_def fit_positions_with_lstsq)





section \<open>Facts about the Series Loader\<close>





section \<open>Facts about the store\<close>

lemma extends_refl: "extends h h"
  by (simp add: extends_def)

lemma extends_nth: "extends h g \<Longrightarrow> a < length h \<Longrightarrow> g ! a = h ! a"
  by (metis extends_def nth_take)

lemma extends_alloc: "extends h g \<Longrightarrow> extends h (g @ [xs])"
  by (simp add: extends_def)

lemma extends_update: "extends h g \<Longrightarrow> length h \<le> a \<Longrightarrow> extends h (g[a := c])"
  by (simp add: extends_def)

text \<open>One rule for each kind of statement: what holds after it, whatever it computes.\<close>

lemma frame_alloc:
  assumes "extends h g"
    and "\<And>a g'. length h \<le> a \<Longrightarrow> extends h g' \<Longrightarrow> extends h (fst (f a g'))"
  shows "extends h (fst (let (a, g') = alloc g xs in f a g'))"
  using assms by (simp add: alloc_def extends_alloc extends_def)

lemma frame_write_at:
  assumes "extends h g" "length h \<le> a"
    and "\<And>g'. extends h g' \<Longrightarrow> extends h (fst (f g'))"
  shows "extends h (fst (Let (write_at g a off xs) f))"
  using assms by (simp add: write_at_def extends_update)

lemma frame_write_col:
  assumes "extends h g" "length h \<le> a"
    and "\<And>g'. extends h g' \<Longrightarrow> extends h (fst (f g'))"
  shows "extends h (fst (Let (write_col g a j xs) f))"
  using assms by (simp add: write_col_def extends_update)

lemma frame_let:
  assumes "\<And>x. extends h (fst (f x))"
  shows "extends h (fst (Let t f))"
  using assms by simp

lemma frame_if:
  assumes "extends h (fst a)" "extends h (fst b)"
  shows "extends h (fst (if c then a else b))"
  using assms by simp

lemma frame_result: "extends h g \<Longrightarrow> extends h (fst (g, r))"
  by simp

lemma create_affine_h_extends: "extends h (fst (create_affine_h h ipp iop ps))"
  unfolding create_affine_h_def
  apply (rule frame_let)
  apply (rule frame_alloc, rule extends_refl)
  apply (rule frame_alloc, assumption)
  apply (rule frame_write_at, assumption, assumption)
  apply (rule frame_alloc, assumption)
  apply (rule frame_if)
   apply (rule frame_result, assumption)
  apply (rule frame_write_at, assumption, assumption)
  apply (rule frame_write_at, assumption, assumption)
  apply (rule frame_alloc, assumption)
  apply (rule frame_write_at, assumption, assumption)
  apply (rule frame_write_at, assumption, assumption)
  apply (rule frame_write_at, assumption, assumption)
  apply (rule frame_write_at, assumption, assumption)
  apply (rule frame_alloc, assumption)
  apply (rule frame_write_col, assumption, assumption)
  apply (rule frame_write_col, assumption, assumption)
  apply (rule frame_write_col, assumption, assumption)
  apply (rule frame_write_col, assumption, assumption)
  apply (rule frame_let)
  apply (rule frame_let)
  apply (rule frame_alloc, assumption)
  apply (rule frame_result, assumption)
  done

lemma write_at_append:
  "length h \<le> a \<Longrightarrow> write_at (h @ cells) a off xs = h @ write_at cells (a - length h) off xs"
  by (simp add: write_at_def list_update_append nth_append)

lemma write_col_append:
  "length h \<le> a \<Longrightarrow> write_col (h @ cells) a j xs = h @ write_col cells (a - length h) j xs"
  by (simp add: write_col_def list_update_append nth_append)

lemma read_at_append:
  "length h \<le> a \<Longrightarrow> read_at (h @ cells) a off len = read_at cells (a - length h) off len"
  "a < length h \<Longrightarrow> read_at (h @ cells) a off len = read_at h a off len"
  by (simp_all add: read_at_def nth_append)

lemma write_at_Cons:
  "write_at (c # cs) 0 off xs = (take off c @ xs @ drop (off + length xs) c) # cs"
  "write_at (c # cs) (Suc k) off xs = c # write_at cs k off xs"
  by (simp_all add: write_at_def)

lemma write_col_Cons:
  "write_col (c # cs) 0 j xs = c[j := xs ! 0, 4 + j := xs ! 1, 8 + j := xs ! 2] # cs"
  "write_col (c # cs) (Suc k) j xs = c # write_col cs k j xs"
  by (simp_all add: write_col_def)

lemma read_at_Cons:
  "read_at (c # cs) 0 off len = take len (drop off c)"
  "read_at (c # cs) (Suc k) off len = read_at cs k off len"
  by (simp_all add: read_at_def)

lemma exec_alloc:
  assumes "\<And>a g'. a = length g \<Longrightarrow> g' = g @ [xs] \<Longrightarrow> Q (f a g')"
  shows "Q (let (a, g') = alloc g xs in f a g')"
  using assms by (simp add: alloc_def)

lemma exec_let:
  assumes "\<And>x. x = t \<Longrightarrow> Q (f x)"
  shows "Q (Let t f)"
  using assms by simp

lemma exec_if:
  assumes "c \<Longrightarrow> Q a" "\<not> c \<Longrightarrow> Q b"
  shows "Q (if c then a else b)"
  using assms by simp

lemma concat_eye4: "concat (eye 4) = [1, 0, 0, 0, 0, 1, 0, 0, 0, 0, 1, 0, 0, 0, 0, 1]"
  by (simp add: eye_def upt_conv_Cons)

lemma rows2_Cons: "rows2 (p0 # p1 # rest) = (p0, p1) # rows2 rest"
  by (simp add: rows2_def map_upt_Suc del: upt_Suc)

lemma create_affine_h_refines:
  assumes valid: "ipp < length h" "iop < length h" "ps < length h"
    and ret: "create_affine (rows3 (h ! ipp)) (rows6 (h ! iop)) (rows2 (h ! ps)) = Returns res"
  shows "\<exists>h'. create_affine_h h ipp iop ps = (h', Inr (length h + 4, length h + 5)) \<and>
           h' ! (length h + 4) = concat (affine res) \<and> h' ! (length h + 5) = pixdim res"
proof -
  obtain a0 a1 a2 b0 b1 b2 where L: "lstsq (rows3 (h ! ipp)) = ((a0, a1, a2), (b0, b1, b2))"
    by (metis prod_cases3 surj_pair)
  obtain m0 m1 m2 n0 n1 n2 where
    M: "iop_mean (rows6 (h ! iop)) = ((m0, m1, m2), (n0, n1, n2))"
    by (metis prod_cases3 surj_pair)
  from ret have "rows2 (h ! ps) \<noteq> []"
    by (auto simp: create_affine_def split: prod.splits)
  then have "2 \<le> length (h ! ps)" by (simp add: rows2_def)
  then obtain p0 p1 rest where P: "h ! ps = p0 # p1 # rest"
    by (metis Suc_le_length_iff numeral_2_eq_2)
  from ret obtain u v where O: "orientation (rows6 (h ! iop)) = Some (u, v)"
    by (auto simp: create_affine_def rows2_Cons P Let_def split: prod.splits option.splits)
  have nz: "norm3 (m0, m1, m2) \<noteq> 0" "norm3 (n0, n1, n2) \<noteq> 0"
    and u: "u = vmap snap (vmap (\<lambda>x. x / norm3 (m0, m1, m2)) (m0, m1, m2))"
    and v: "v = vmap snap (vmap (\<lambda>x. x / norm3 (n0, n1, n2)) (n0, n1, n2))"
    using O by (auto simp: orientation_def M normalize3_def split: if_splits)
  have F: "fit_positions (rows3 (h ! ipp)) = ((snap a0, snap a1, snap a2), (snap b0, snap b1, snap b2))"
    by (simp add: fit_positions_def L vmap_def)
  note R = create_affine_Returns[OF rows2_Cons[of p0 p1 rest, folded P] O, of "rows3 (h ! ipp)",
      unfolded F fst_conv snd_conv]
  have inj: "affine r = affine res \<and> pixdim r = pixdim res" if "Returns r = Returns res" for r
    using that by simp
  from inj[OF ret[unfolded R]]
  have res: "affine res = assemble (vmap (\<lambda>x. x * p0) u) (vmap (\<lambda>x. x * p1) v)
                           (snap a0, snap a1, snap a2) (snap b0, snap b1, snap b2)"
      "pixdim res = [sgn (dot3 (snap a0, snap a1, snap a2) (cross u v)), p0, p1,
                        round7 (norm3 (snap a0, snap a1, snap a2))]"
    by simp_all
  note sims = write_at_append write_col_append read_at_append nth_append valid L M P
    flat3_def vec3_of_def alloc_def concat_eye4 write_at_Cons write_col_Cons read_at_Cons
  define post :: "heap \<times> (py_error + nat \<times> nat) \<Rightarrow> bool" where
    "post r \<longleftrightarrow> (\<exists>h'. r = (h', Inr (length h + 4, length h + 5)) \<and>
           h' ! (length h + 4) = concat (affine res) \<and> h' ! (length h + 5) = pixdim res)" for r
  have "post (create_affine_h h ipp iop ps)"
    unfolding create_affine_h_def
    apply (rule exec_let[where Q = post])
    apply (rule exec_alloc[where Q = post])
    apply (rule exec_alloc[where Q = post])
    apply (rule exec_let[where Q = post])
    apply (rule exec_alloc[where Q = post])
    apply (rule exec_if[where Q = post])
     apply (simp add: sims)
    apply (rule exec_let[where Q = post])
    apply (rule exec_let[where Q = post])
    apply (rule exec_alloc[where Q = post])
    apply (rule exec_let[where Q = post])
    apply (rule exec_let[where Q = post])
    apply (rule exec_let[where Q = post])
    apply (rule exec_let[where Q = post])
    apply (rule exec_alloc[where Q = post])
    apply (rule exec_let[where Q = post])
    apply (rule exec_let[where Q = post])
    apply (rule exec_let[where Q = post])
    apply (rule exec_let[where Q = post])
    apply (rule exec_let[where Q = post])
    apply (rule exec_let[where Q = post])
    apply (rule exec_alloc[where Q = post])
    subgoal premises p for n A h1 x h2 h3 spacing h4 h5 h6 iop_average h7 h8 h9 h10 h11
        mat h12 h13 h14 h15 h16 dv qfac pixdim h17
    proof -
      define Ac where "Ac = concat (map (\<lambda>i. [real i, 1]) [0..<n])"
      define N where "N = norm3 (m0, m1, m2)"
      define N' where "N' = norm3 (n0, n1, n2)"
      define s2 where "s2 = round7 (norm3 (snap a0, snap a1, snap a2))"
      note lists = write_at_append write_col_append read_at_append nth_append valid
        write_at_Cons write_col_Cons read_at_Cons flat3_def vec3_of_def
      have H1: "h1 = h @ [Ac]" using p(3) by (simp add: Ac_def)
      have X: "x = Suc (length h)" using p(4) by (simp add: H1)
      have H2: "h2 = h @ [Ac, [a0, a1, a2, b0, b1, b2]]"
        using p(5) by (simp add: H1 lists L)
      have H3: "h3 = h @ [Ac, [snap a0, snap a1, snap a2, snap b0, snap b1, snap b2]]"
        using p(6) by (simp add: H2 X lists)
      have S: "spacing = length h + 2" using p(7) by (simp add: H3)
      have H4: "h4 = h @ [Ac, [snap a0, snap a1, snap a2, snap b0, snap b1, snap b2], [1, 1, 1]]"
        using p(8) by (simp add: H3)
      have H5: "h5 = h @ [Ac, [snap a0, snap a1, snap a2, snap b0, snap b1, snap b2], [p0, p1, 1]]"
        using p(10) by (simp add: H4 S lists read_at_def P numeral_2_eq_2)
      have H6: "h6 = h @ [Ac, [snap a0, snap a1, snap a2, snap b0, snap b1, snap b2], [p0, p1, s2]]"
        using p(11) by (simp add: H5 S X lists numeral_2_eq_2 numeral_3_eq_3 s2_def)
      let ?X = "[snap a0, snap a1, snap a2, snap b0, snap b1, snap b2]"
      let ?S = "[p0, p1, s2]"
      have I: "iop_average = length h + 3" using p(12) by (simp add: H6)
      have H7: "h7 = h @ [Ac, ?X, ?S, [m0, m1, m2, n0, n1, n2]]"
        using p(13) by (simp add: H6 lists M)
      have H8: "h8 = h @ [Ac, ?X, ?S, [m0 / N, m1 / N, m2 / N, n0, n1, n2]]"
        using p(14) by (simp add: H7 I lists numeral_3_eq_3 N_def)
      have H9: "h9 = h @ [Ac, ?X, ?S, [m0 / N, m1 / N, m2 / N, n0 / N', n1 / N', n2 / N']]"
        using p(15) by (simp add: H8 I lists numeral_3_eq_3 N'_def)
      have H10: "h10 = h @ [Ac, ?X, ?S, [snap (m0 / N), snap (m1 / N), snap (m2 / N),
                                        n0 / N', n1 / N', n2 / N']]"
        using p(16) by (simp add: H9 I lists numeral_3_eq_3)
      let ?I = "[snap (m0 / N), snap (m1 / N), snap (m2 / N),
                 snap (n0 / N'), snap (n1 / N'), snap (n2 / N')]"
      have H11: "h11 = h @ [Ac, ?X, ?S, ?I]"
        using p(17) by (simp add: H10 I lists numeral_3_eq_3)
      have Mt: "mat = length h + 4" using p(18) by (simp add: H11)
      have H12: "h12 = h @ [Ac, ?X, ?S, ?I,
                   [1, 0, 0, 0, 0, 1, 0, 0, 0, 0, 1, 0, 0, 0, 0, 1]]"
        using p(19) by (simp add: H11 concat_eye4)
      have H13: "h13 = h @ [Ac, ?X, ?S, ?I,
                   [snap (m0 / N) * p0, 0, 0, 0, snap (m1 / N) * p0, 1, 0, 0,
                    snap (m2 / N) * p0, 0, 1, 0, 0, 0, 0, 1]]"
        using p(20) by (simp add: H12 Mt I S lists eval_nat_numeral)
      have H14: "h14 = h @ [Ac, ?X, ?S, ?I,
                   [snap (m0 / N) * p0, snap (n0 / N') * p1, 0, 0,
                    snap (m1 / N) * p0, snap (n1 / N') * p1, 0, 0,
                    snap (m2 / N) * p0, snap (n2 / N') * p1, 1, 0, 0, 0, 0, 1]]"
        using p(21) by (simp add: H13 Mt I S lists eval_nat_numeral)
      have H15: "h15 = h @ [Ac, ?X, ?S, ?I,
                   [snap (m0 / N) * p0, snap (n0 / N') * p1, snap a0, 0,
                    snap (m1 / N) * p0, snap (n1 / N') * p1, snap a1, 0,
                    snap (m2 / N) * p0, snap (n2 / N') * p1, snap a2, 0, 0, 0, 0, 1]]"
        using p(22) by (simp add: H14 Mt X lists eval_nat_numeral)
      have H16: "h16 = h @ [Ac, ?X, ?S, ?I,
                   [snap (m0 / N) * p0, snap (n0 / N') * p1, snap a0, snap b0,
                    snap (m1 / N) * p0, snap (n1 / N') * p1, snap a1, snap b1,
                    snap (m2 / N) * p0, snap (n2 / N') * p1, snap a2, snap b2, 0, 0, 0, 1]]"
        using p(23) by (simp add: H15 Mt X lists eval_nat_numeral)
      have dv: "dv = dot3 (snap a0, snap a1, snap a2) (cross u v)"
        using p(24) by (simp add: H16 X I lists numeral_3_eq_3 u v vmap_def N_def N'_def)
      have Pd: "pixdim = length h + 5" using p(26) by (simp add: H16)
      have H17: "h17 = h16 @ [[qfac, p0, p1, s2]]"
        using p(27) by (simp add: H16 S lists eval_nat_numeral)
      have a: "concat (affine res) =
                   [snap (m0 / N) * p0, snap (n0 / N') * p1, snap a0, snap b0,
                    snap (m1 / N) * p0, snap (n1 / N') * p1, snap a1, snap b1,
                    snap (m2 / N) * p0, snap (n2 / N') * p1, snap a2, snap b2, 0, 0, 0, 1]"
        by (simp add: res u v vmap_def assemble_def N_def N'_def)
      have b: "affine_result.pixdim res = [qfac, p0, p1, s2]"
        by (simp add: res p(25) dv s2_def)
      show ?thesis
        unfolding post_def H17 H16 Mt Pd a b
        by (simp add: nth_append)
    qed
    done
  then show ?thesis by (simp add: post_def)
qed

section \<open>Facts about the rounding to float64\<close>

lemma rint_of_int: "rint (of_int k) = k"
  by (simp add: rint_def)

lemma rint_minus: "rint (- x) = - rint x"
proof (cases "x \<in> \<int>")
  case True
  then obtain k where "x = of_int k" by (auto elim: Ints_cases)
  then have "- x = of_int (- k)" by simp
  then show ?thesis unfolding \<open>x = of_int k\<close> by (simp only: rint_of_int)
next
  case False
  then have ne: "x \<noteq> of_int \<lfloor>x\<rfloor>" by (metis Ints_of_int)
  then have f: "\<lfloor>- x\<rfloor> = - \<lfloor>x\<rfloor> - 1"
    by (simp add: floor_minus ceiling_altdef)
  from ne have d: "0 < x - of_int \<lfloor>x\<rfloor>"
    using of_int_floor_le[of x] by linarith
  show ?thesis
    unfolding rint_def Let_def f using d by (auto simp: field_simps)
qed

lemma round53_minus: "round53 (- x) = - round53 x"
  by (simp add: round53_def Let_def rint_minus)

lemma round53_eval:
  assumes "2 powi e \<le> \<bar>x\<bar>" "\<bar>x\<bar> < 2 powi (e + 1)"
  shows "round53 x = of_int (rint (x / 2 powi (max (e - 52) (- 1074)))) * 2 powi (max (e - 52) (- 1074))"
proof -
  have pos: "0 < \<bar>x\<bar>" using assms(1) by (smt (verit) zero_less_power_int)
  have p: "2 powr (of_int e) = (2::real) powi e"
    "2 powr (real_of_int e + 1) = (2::real) powi (e + 1)"
    using powr_real_of_int'[of 2 e] powr_real_of_int'[of 2 "e + 1"] by simp_all
  have "\<lfloor>log 2 \<bar>x\<bar>\<rfloor> = e"
    using assms pos by (simp add: floor_log_eq_powr_iff p)
  then show ?thesis using pos by (simp add: round53_def Let_def)
qed

lemma expo_bounds:
  assumes "x \<noteq> 0"
  shows "2 powi \<lfloor>log 2 \<bar>x\<bar>\<rfloor> \<le> \<bar>x\<bar>" and "\<bar>x\<bar> < 2 powi (\<lfloor>log 2 \<bar>x\<bar>\<rfloor> + 1)"
proof -
  define e where "e = \<lfloor>log 2 \<bar>x\<bar>\<rfloor>"
  have pos: "0 < \<bar>x\<bar>" using assms by simp
  have p: "2 powr (of_int e) = (2::real) powi e"
    "2 powr (real_of_int e + 1) = (2::real) powi (e + 1)"
    using powr_real_of_int'[of 2 e] powr_real_of_int'[of 2 "e + 1"] by simp_all
  have "\<lfloor>log 2 \<bar>x\<bar>\<rfloor> = e" by (simp add: e_def)
  then have "2 powi e \<le> \<bar>x\<bar> \<and> \<bar>x\<bar> < 2 powi (e + 1)"
    using pos by (simp add: floor_log_eq_powr_iff p)
  then show "2 powi \<lfloor>log 2 \<bar>x\<bar>\<rfloor> \<le> \<bar>x\<bar>" and "\<bar>x\<bar> < 2 powi (\<lfloor>log 2 \<bar>x\<bar>\<rfloor> + 1)"
    by (simp_all add: e_def)
qed

lemma rint_Ints: "y \<in> \<int> \<Longrightarrow> of_int (rint y) = y"
  by (auto elim!: Ints_cases simp: rint_of_int)

lemma round53_exact:
  assumes x: "x = of_int m * 2 powi k" and m: "\<bar>m\<bar> \<le> 2 ^ 53" and k: "- 1074 \<le> k"
  shows "round53 x = x"
proof (cases "x = 0")
  case True
  then show ?thesis by (simp add: round53_def)
next
  case False
  define e where "e = \<lfloor>log 2 \<bar>x\<bar>\<rfloor>"
  define j where "j = max (e - 52) (- 1074)"
  have lo: "2 powi e \<le> \<bar>x\<bar>" unfolding e_def using False by (rule expo_bounds)
  have ax: "\<bar>x\<bar> = of_int \<bar>m\<bar> * 2 powi k" by (simp add: x abs_mult)
  have int: "x / 2 powi j \<in> \<int>"
  proof (cases "\<bar>m\<bar> = 2 ^ 53")
    case True
    then have "\<bar>x\<bar> = 2 powi (53 + k)" by (simp add: ax power_int_add)
    then have "e = 53 + k"
      unfolding e_def using expo_bounds[OF False]
      by (smt (verit) one_less_numeral_iff power_int_strict_increasing semiring_norm(76))
    then have j: "j = k + 1" using k by (simp add: j_def)
    from True have "m = 2 ^ 53 \<or> m = - (2 ^ 53)" by (auto simp: abs_if split: if_splits)
    then have "x / 2 powi j = of_int (m div 2)"
      unfolding j x by (auto simp: power_int_add)
    then show ?thesis by simp
  next
    case ne: False
    with m have "\<bar>m\<bar> < 2 ^ 53" by simp
    then have "real_of_int \<bar>m\<bar> < 2 ^ 53" by (metis of_int_less_iff of_int_numeral of_int_power)
    then have "\<bar>x\<bar> < 2 powi (53 + k)" by (simp add: ax power_int_add)
    with lo have "(2::real) powi e < 2 powi (53 + k)" by simp
    have "e < 53 + k"
    proof (rule ccontr)
      assume "\<not> e < 53 + k"
      then have "(2::real) powi (53 + k) \<le> 2 powi e"
        by (intro power_int_increasing) auto
      with \<open>(2::real) powi e < 2 powi (53 + k)\<close> show False by simp
    qed
    then have jk: "j \<le> k" using k by (simp add: j_def)
    have "x / 2 powi j = of_int m * 2 powi (k - j)" by (simp add: x power_int_diff)
    also have "\<dots> = of_int (m * 2 ^ nat (k - j))"
      using jk by (simp add: power_int_def)
    finally show ?thesis by simp
  qed
  show ?thesis
    using False unfolding round53_def e_def[symmetric] Let_def j_def[symmetric]
    by (simp add: rint_Ints[OF int])
qed

lemma fl64_minus: "fl64 (- x) = map_option uminus (fl64 x)"
  by (simp add: fl64_def round53_minus Let_def)

lemma representable_minus: "representable (- x) \<longleftrightarrow> representable x"
  by (auto simp: representable_def fl64_minus)

lemma fl64_exact:
  assumes "x = of_int m * 2 powi k" "\<bar>m\<bar> \<le> 2 ^ 53" "- 1074 \<le> k" "\<bar>x\<bar> < 2 ^ 1024"
  shows "fl64 x = Some x"
  using round53_exact[OF assms(1-3)] assms(4) by (simp add: fl64_def)

lemma fl64_of_int: "\<bar>m\<bar> \<le> 2 ^ 53 \<Longrightarrow> fl64 (of_int m) = Some (of_int m)"
proof (rule fl64_exact[where m = m and k = 0])
  assume m: "\<bar>m\<bar> \<le> 2 ^ 53"
  then have "real_of_int \<bar>m\<bar> \<le> 2 ^ 53"
    by (metis of_int_le_iff of_int_numeral of_int_power)
  also have "\<dots> < (2::real) ^ 1024" by simp
  finally show "\<bar>real_of_int m\<bar> < 2 ^ 1024" by simp
qed simp_all

lemma fl64_numeral:
  "numeral n \<le> (2::int) ^ 53 \<Longrightarrow> fl64 (numeral n) = Some (numeral n)"
  "numeral n \<le> (2::int) ^ 53 \<Longrightarrow> fl64 (- numeral n) = Some (- numeral n)"
  "fl64 0 = Some 0" "fl64 1 = Some 1" "fl64 (- 1) = Some (- 1)"
  using fl64_of_int[of "numeral n"] fl64_of_int[of "- numeral n"] fl64_of_int[of 0]
    fl64_of_int[of 1] fl64_of_int[of "- 1"]
  by simp_all

lemma fl64_tie: "fl64 (2 ^ 53 + 1) = Some (2 ^ 53)" "fl64 (- (2 ^ 53) - 1) = Some (- (2 ^ 53))"
proof -
  have "round53 (2 ^ 53 + 1) = 2 ^ 53"
    by (subst round53_eval[where e = 53]) (simp_all add: rint_def Let_def)
  then show 1: "fl64 (2 ^ 53 + 1) = Some (2 ^ 53)" by (simp add: fl64_def)
  have "- (2 ^ 53) - 1 = - (2 ^ 53 + 1 :: real)" by simp
  then show "fl64 (- (2 ^ 53) - 1) = Some (- (2 ^ 53))"
    by (simp only: fl64_minus 1 option.map)
qed

section \<open>Facts about \<open>convert_coords\<close> in float64\<close>

lemma flip_x_fl_Some:
  "flip_x_fl (vol, [[a0, a1, a2, a3], [b0, b1, b2, b3], [c0, c1, c2, c3], [d0, d1, d2, d3]]) = Some r
   \<longleftrightarrow> (\<exists>a b c d. update_entry a3 a0 (int (shape vol 2) - 1) = Some a \<and>
                 update_entry b3 b0 (int (shape vol 2) - 1) = Some b \<and>
                 update_entry c3 c0 (int (shape vol 2) - 1) = Some c \<and>
                 update_entry d3 d0 (int (shape vol 2) - 1) = Some d \<and>
                 r = (flip vol 2, [[- a0, a1, a2, a], [- b0, b1, b2, b],
                                   [- c0, c1, c2, c], [- d0, d1, d2, d]]))"
  by (auto simp: flip_x_fl_def add_scaled_col_fl_def negate_col_def Let_def shape_flip2
      split: option.splits)

lemma flip_y_fl_Some:
  "flip_y_fl (vol, [[a0, a1, a2, a3], [b0, b1, b2, b3], [c0, c1, c2, c3], [d0, d1, d2, d3]]) = Some r
   \<longleftrightarrow> (\<exists>a b c d. update_entry a3 a1 (int (shape vol 1) - 1) = Some a \<and>
                 update_entry b3 b1 (int (shape vol 1) - 1) = Some b \<and>
                 update_entry c3 c1 (int (shape vol 1) - 1) = Some c \<and>
                 update_entry d3 d1 (int (shape vol 1) - 1) = Some d \<and>
                 r = (flip vol 1, [[a0, - a1, a2, a], [b0, - b1, b2, b],
                                   [c0, - c1, c2, c], [d0, - d1, d2, d]]))"
  by (auto simp: flip_y_fl_def add_scaled_col_fl_def negate_col_def Let_def shape_flip1_01
      split: option.splits)

lemma update_entry_exact:
  assumes "representable (of_int k)" "representable (c * of_int k)"
    "representable (t + c * of_int k)"
  shows "update_entry t c k = Some (t + c * of_int k)"
  using assms by (simp add: update_entry_def representable_def)

lemma update_entry_exact_neg:
  assumes "representable (of_int k)" "representable (c * of_int k)"
    "representable (t + c * of_int k)"
  shows "update_entry (- t) (- c) k = Some (- t - c * of_int k)"
proof -
  have "representable (- c * of_int k)" "representable (- t + - c * of_int k)"
    using assms(2,3) representable_minus[of "c * of_int k"] representable_minus[of "t + c * of_int k"]
    by simp_all
  from update_entry_exact[OF assms(1) this] show ?thesis by simp
qed

lemma convert_coords_fl_explicit:
  fixes vol :: volume and a0 a1 a2 a3 b0 b1 b2 b3 c0 c1 c2 c3 d0 d1 d2 d3 :: real
  assumes mat_def: "mat = [[a0, a1, a2, a3], [b0, b1, b2, b3], [c0, c1, c2, c3], [d0, d1, d2, d3]]"
  assumes fx_def: "fx \<longleftrightarrow> [- a0, - b0, c0, d0] ! xmaxi_of mat < 0"
  assumes fy_def: "fy \<longleftrightarrow> [- a1, - b1, c1, d1] ! ymaxi_of mat < 0"
  assumes kx_def: "kx = int (shape vol 2) - 1"
  assumes ky_def: "ky = int (shape vol 1) - 1"
  assumes sx_def: "sx = (if fx then 1 else - 1)"
  assumes sy_def: "sy = (if fy then 1 else - 1)"
  assumes vol2_def: "vol2 = (if fx then flip vol 2 else vol)"
  shows "convert_coords_fl vol mat = Some r \<longleftrightarrow>
     (\<exists>t0 t1 t2 t3 u0 u1 u2 u3.
        (if fx then update_entry (- a3) (- a0) kx else Some (- a3)) = Some t0 \<and>
        (if fx then update_entry (- b3) (- b0) kx else Some (- b3)) = Some t1 \<and>
        (if fx then update_entry c3 c0 kx else Some c3) = Some t2 \<and>
        (if fx then update_entry d3 d0 kx else Some d3) = Some t3 \<and>
        (if fy then update_entry t0 (- a1) ky else Some t0) = Some u0 \<and>
        (if fy then update_entry t1 (- b1) ky else Some t1) = Some u1 \<and>
        (if fy then update_entry t2 c1 ky else Some t2) = Some u2 \<and>
        (if fy then update_entry t3 d1 ky else Some t3) = Some u3 \<and>
        r = (if fy then flip vol2 1 else vol2,
             [[sx * a0, sy * a1, - a2, u0], [sx * b0, sy * b1, - b2, u1],
              [- sx * c0, - sy * c1, c2, u2], [- sx * d0, - sy * d1, d2, u3]]))"
proof -
  define m1 where "m1 = dot convmat mat"
  have m1: "m1 = [[- a0, - a1, - a2, - a3], [- b0, - b1, - b2, - b3],
                  [c0, c1, c2, c3], [d0, d1, d2, d3]]"
    by (simp add: m1_def mat_def dot_convmat)
  have k: "xmaxi_of m1 = xmaxi_of mat" and l: "ymaxi_of m1 = ymaxi_of mat"
    unfolding m1 mat_def maxi_of_explicit by simp_all
  have k4: "xmaxi_of mat < 4" and l4: "ymaxi_of mat < 4"
    by (simp_all add: xmaxi_of_less ymaxi_of_less mat_def is_mat4_def)
  have ex: "m1 ! xmaxi_of mat ! 0 < 0 \<longleftrightarrow> fx"
    unfolding m1 fx_def entry_explicit(1)[OF k4] ..
  have ey: "[[p0, - a1, p2, p3], [q0, - b1, q2, q3], [r0, c1, r2, r3], [s0, d1, s2, s3]]
              ! ymaxi_of mat ! Suc 0 < 0 \<longleftrightarrow> fy" for p0 p2 p3 q0 q2 q3 r0 r2 r3 s0 s2 s3 :: real
    unfolding fy_def entry_explicit(2)[OF l4] ..
  have sh: "shape vol2 (Suc 0) = shape vol (Suc 0)"
    by (simp add: vol2_def shape_flip2)
  define vm2 where "vm2 = (if fx then flip_x_fl (vol, m1) else Some (vol, m1))"
  have cc: "convert_coords_fl vol mat =
      (case vm2 of None \<Rightarrow> None
       | Some v \<Rightarrow> (if snd v ! ymaxi_of mat ! Suc 0 < 0 then flip_y_fl v else Some v))"
    unfolding convert_coords_fl_def Let_def m1_def[symmetric] k l vm2_def
    by (simp add: ex fix_zero_id split: option.splits)
  have vm2: "vm2 = Some v \<longleftrightarrow> (\<exists>t0 t1 t2 t3.
        (if fx then update_entry (- a3) (- a0) kx else Some (- a3)) = Some t0 \<and>
        (if fx then update_entry (- b3) (- b0) kx else Some (- b3)) = Some t1 \<and>
        (if fx then update_entry c3 c0 kx else Some c3) = Some t2 \<and>
        (if fx then update_entry d3 d0 kx else Some d3) = Some t3 \<and>
        v = (vol2, [[sx * a0, - a1, - a2, t0], [sx * b0, - b1, - b2, t1],
                    [- sx * c0, c1, c2, t2], [- sx * d0, d1, d2, t3]]))" for v
    unfolding vm2_def m1 by (auto simp: flip_x_fl_Some sx_def vol2_def kx_def)
  show ?thesis
  proof
    assume "convert_coords_fl vol mat = Some r"
    then obtain v where v: "vm2 = Some v"
      and r: "(if snd v ! ymaxi_of mat ! Suc 0 < 0 then flip_y_fl v else Some v) = Some r"
      unfolding cc by (auto split: option.splits)
    from v[unfolded vm2] obtain t0 t1 t2 t3 where t:
        "(if fx then update_entry (- a3) (- a0) kx else Some (- a3)) = Some t0"
        "(if fx then update_entry (- b3) (- b0) kx else Some (- b3)) = Some t1"
        "(if fx then update_entry c3 c0 kx else Some c3) = Some t2"
        "(if fx then update_entry d3 d0 kx else Some d3) = Some t3"
      and v': "v = (vol2, [[sx * a0, - a1, - a2, t0], [sx * b0, - b1, - b2, t1],
                    [- sx * c0, c1, c2, t2], [- sx * d0, d1, d2, t3]])"
      by blast
    from r have "(if fy then flip_y_fl v else Some v) = Some r"
      unfolding v' snd_conv ey .
    then have "\<exists>u0 u1 u2 u3.
        (if fy then update_entry t0 (- a1) ky else Some t0) = Some u0 \<and>
        (if fy then update_entry t1 (- b1) ky else Some t1) = Some u1 \<and>
        (if fy then update_entry t2 c1 ky else Some t2) = Some u2 \<and>
        (if fy then update_entry t3 d1 ky else Some t3) = Some u3 \<and>
        r = (if fy then flip vol2 1 else vol2,
             [[sx * a0, sy * a1, - a2, u0], [sx * b0, sy * b1, - b2, u1],
              [- sx * c0, - sy * c1, c2, u2], [- sx * d0, - sy * d1, d2, u3]])"
      unfolding v' by (auto simp: flip_y_fl_Some sy_def ky_def sh)
    with t show "\<exists>t0 t1 t2 t3 u0 u1 u2 u3.
        (if fx then update_entry (- a3) (- a0) kx else Some (- a3)) = Some t0 \<and>
        (if fx then update_entry (- b3) (- b0) kx else Some (- b3)) = Some t1 \<and>
        (if fx then update_entry c3 c0 kx else Some c3) = Some t2 \<and>
        (if fx then update_entry d3 d0 kx else Some d3) = Some t3 \<and>
        (if fy then update_entry t0 (- a1) ky else Some t0) = Some u0 \<and>
        (if fy then update_entry t1 (- b1) ky else Some t1) = Some u1 \<and>
        (if fy then update_entry t2 c1 ky else Some t2) = Some u2 \<and>
        (if fy then update_entry t3 d1 ky else Some t3) = Some u3 \<and>
        r = (if fy then flip vol2 1 else vol2,
             [[sx * a0, sy * a1, - a2, u0], [sx * b0, sy * b1, - b2, u1],
              [- sx * c0, - sy * c1, c2, u2], [- sx * d0, - sy * d1, d2, u3]])"
      by blast
  next
    assume "\<exists>t0 t1 t2 t3 u0 u1 u2 u3.
        (if fx then update_entry (- a3) (- a0) kx else Some (- a3)) = Some t0 \<and>
        (if fx then update_entry (- b3) (- b0) kx else Some (- b3)) = Some t1 \<and>
        (if fx then update_entry c3 c0 kx else Some c3) = Some t2 \<and>
        (if fx then update_entry d3 d0 kx else Some d3) = Some t3 \<and>
        (if fy then update_entry t0 (- a1) ky else Some t0) = Some u0 \<and>
        (if fy then update_entry t1 (- b1) ky else Some t1) = Some u1 \<and>
        (if fy then update_entry t2 c1 ky else Some t2) = Some u2 \<and>
        (if fy then update_entry t3 d1 ky else Some t3) = Some u3 \<and>
        r = (if fy then flip vol2 1 else vol2,
             [[sx * a0, sy * a1, - a2, u0], [sx * b0, sy * b1, - b2, u1],
              [- sx * c0, - sy * c1, c2, u2], [- sx * d0, - sy * d1, d2, u3]])"
    then obtain t0 t1 t2 t3 u0 u1 u2 u3 where t:
        "(if fx then update_entry (- a3) (- a0) kx else Some (- a3)) = Some t0"
        "(if fx then update_entry (- b3) (- b0) kx else Some (- b3)) = Some t1"
        "(if fx then update_entry c3 c0 kx else Some c3) = Some t2"
        "(if fx then update_entry d3 d0 kx else Some d3) = Some t3"
      and u: "(if fy then update_entry t0 (- a1) ky else Some t0) = Some u0"
        "(if fy then update_entry t1 (- b1) ky else Some t1) = Some u1"
        "(if fy then update_entry t2 c1 ky else Some t2) = Some u2"
        "(if fy then update_entry t3 d1 ky else Some t3) = Some u3"
      and r: "r = (if fy then flip vol2 1 else vol2,
             [[sx * a0, sy * a1, - a2, u0], [sx * b0, sy * b1, - b2, u1],
              [- sx * c0, - sy * c1, c2, u2], [- sx * d0, - sy * d1, d2, u3]])"
      by blast
    define v where "v = (vol2, [[sx * a0, - a1, - a2, t0], [sx * b0, - b1, - b2, t1],
                    [- sx * c0, c1, c2, t2], [- sx * d0, d1, d2, t3]])"
    have v: "vm2 = Some v" unfolding vm2 using t v_def by blast
    have "(if fy then flip_y_fl v else Some v) = Some r"
      using u unfolding v_def r by (auto simp: flip_y_fl_Some sy_def ky_def sh)
    then have "(if snd v ! ymaxi_of mat ! Suc 0 < 0 then flip_y_fl v else Some v) = Some r"
      unfolding v_def snd_conv ey .
    then show "convert_coords_fl vol mat = Some r"
      unfolding cc v by simp
  qed
qed

text \<open>
  Rounding touches the translation column only: the volume and the first three columns
  are those of the function in exact arithmetic, which finds them from the volume and the
  first three columns it is given.
\<close>

lemma convert_coords_fl_agree:
  assumes m: "is_mat4 mat" and cc: "convert_coords_fl vol mat = Some (v', m')"
  shows "v' = fst (convert_coords vol mat)" and "is_mat4 m'"
    and "column m' 0 = column (snd (convert_coords vol mat)) 0"
    and "column m' 1 = column (snd (convert_coords vol mat)) 1"
    and "column m' 2 = column (snd (convert_coords vol mat)) 2"
proof -
  from m obtain a0 a1 a2 a3 b0 b1 b2 b3 c0 c1 c2 c3 d0 d1 d2 d3 where
    mat: "mat = [[a0, a1, a2, a3], [b0, b1, b2, b3], [c0, c1, c2, c3], [d0, d1, d2, d3]]"
    by (rule is_mat4_explode)
  define fx where "fx \<longleftrightarrow> [- a0, - b0, c0, d0] ! xmaxi_of mat < 0"
  define fy where "fy \<longleftrightarrow> [- a1, - b1, c1, d1] ! ymaxi_of mat < 0"
  define kx where "kx = (if fx then real_of_int (int (shape vol 2) - 1) else 0)"
  define ky where "ky = (if fy then real_of_int (int (shape vol 1) - 1) else 0)"
  define kxi where "kxi = int (shape vol 2) - 1"
  define kyi where "kyi = int (shape vol 1) - 1"
  define sx :: real where "sx = (if fx then 1 else - 1)"
  define sy :: real where "sy = (if fy then 1 else - 1)"
  define vol2 where "vol2 = (if fx then flip vol 2 else vol)"
  note e = convert_coords_explicit[OF mat fx_def fy_def kx_def ky_def sx_def sy_def vol2_def]
  from cc[unfolded convert_coords_fl_explicit[OF mat fx_def fy_def kxi_def kyi_def sx_def sy_def vol2_def]]
  obtain u0 u1 u2 u3 where
    r: "(v', m') = (if fy then flip vol2 1 else vol2,
             [[sx * a0, sy * a1, - a2, u0], [sx * b0, sy * b1, - b2, u1],
              [- sx * c0, - sy * c1, c2, u2], [- sx * d0, - sy * d1, d2, u3]])"
    by blast
  from r show "v' = fst (convert_coords vol mat)" by (simp add: e)
  from r show "is_mat4 m'" by (simp add: is_mat4_def)
  from r show "column m' 0 = column (snd (convert_coords vol mat)) 0"
    and "column m' 1 = column (snd (convert_coords vol mat)) 1"
    and "column m' 2 = column (snd (convert_coords vol mat)) 2"
    by (simp_all add: e column_def)
qed

lemma columns_explode:
  assumes "is_mat4 m" "is_mat4 n"
    and "column m 0 = column n 0" "column m 1 = column n 1" "column m 2 = column n 2"
  obtains a0 a1 a2 a3 b0 b1 b2 b3 c0 c1 c2 c3 d0 d1 d2 d3 a3' b3' c3' d3' where
    "m = [[a0, a1, a2, a3], [b0, b1, b2, b3], [c0, c1, c2, c3], [d0, d1, d2, d3]]"
    "n = [[a0, a1, a2, a3'], [b0, b1, b2, b3'], [c0, c1, c2, c3'], [d0, d1, d2, d3']]"
proof -
  from assms(1) obtain a0 a1 a2 a3 b0 b1 b2 b3 c0 c1 c2 c3 d0 d1 d2 d3 where
    m: "m = [[a0, a1, a2, a3], [b0, b1, b2, b3], [c0, c1, c2, c3], [d0, d1, d2, d3]]"
    by (rule is_mat4_explode)
  from assms(2) obtain e0 e1 e2 e3 f0 f1 f2 f3 g0 g1 g2 g3 h0 h1 h2 h3 where
    n: "n = [[e0, e1, e2, e3], [f0, f1, f2, f3], [g0, g1, g2, g3], [h0, h1, h2, h3]]"
    by (rule is_mat4_explode)
  from assms(3-5) have "n = [[a0, a1, a2, e3], [b0, b1, b2, f3], [c0, c1, c2, g3], [d0, d1, d2, h3]]"
    unfolding m n by (simp add: column_def)
  with m that show thesis by blast
qed

lemma convert_coords_cong:
  assumes "is_mat4 m" "is_mat4 n"
    and "column m 0 = column n 0" "column m 1 = column n 1" "column m 2 = column n 2"
  shows "fst (convert_coords vol m) = fst (convert_coords vol n)"
    and "column (snd (convert_coords vol m)) 0 = column (snd (convert_coords vol n)) 0"
    and "column (snd (convert_coords vol m)) 1 = column (snd (convert_coords vol n)) 1"
    and "column (snd (convert_coords vol m)) 2 = column (snd (convert_coords vol n)) 2"
proof -
  from assms obtain a0 a1 a2 a3 b0 b1 b2 b3 c0 c1 c2 c3 d0 d1 d2 d3 a3' b3' c3' d3' where
    m: "m = [[a0, a1, a2, a3], [b0, b1, b2, b3], [c0, c1, c2, c3], [d0, d1, d2, d3]]" and
    n: "n = [[a0, a1, a2, a3'], [b0, b1, b2, b3'], [c0, c1, c2, c3'], [d0, d1, d2, d3']]"
    by (rule columns_explode)
  have same: "xmaxi_of n = xmaxi_of m" "ymaxi_of n = ymaxi_of m"
    unfolding m n maxi_of_explicit by simp_all
  define fx where "fx \<longleftrightarrow> [- a0, - b0, c0, d0] ! xmaxi_of m < 0"
  define fy where "fy \<longleftrightarrow> [- a1, - b1, c1, d1] ! ymaxi_of m < 0"
  define kx where "kx = (if fx then real_of_int (int (shape vol 2) - 1) else 0)"
  define ky where "ky = (if fy then real_of_int (int (shape vol 1) - 1) else 0)"
  define sx :: real where "sx = (if fx then 1 else - 1)"
  define sy :: real where "sy = (if fy then 1 else - 1)"
  define vol2 where "vol2 = (if fx then flip vol 2 else vol)"
  note em = convert_coords_explicit[OF m fx_def fy_def kx_def ky_def sx_def sy_def vol2_def]
  note en = convert_coords_explicit[OF n fx_def[folded same] fy_def[folded same]
      kx_def ky_def sx_def sy_def vol2_def]
  show "fst (convert_coords vol m) = fst (convert_coords vol n)"
    and "column (snd (convert_coords vol m)) 0 = column (snd (convert_coords vol n)) 0"
    and "column (snd (convert_coords vol m)) 1 = column (snd (convert_coords vol n)) 1"
    and "column (snd (convert_coords vol m)) 2 = column (snd (convert_coords vol n)) 2"
    unfolding em en by (simp_all add: column_def)
qed

lemma dominant_cong:
  assumes "is_mat4 m" "is_mat4 n"
    and "column m 0 = column n 0" "column m 1 = column n 1"
  shows "m ! xmaxi_of m ! 0 = n ! xmaxi_of n ! 0" and "m ! ymaxi_of m ! 1 = n ! ymaxi_of n ! 1"
proof -
  have same: "xmaxi_of m = xmaxi_of n" "ymaxi_of m = ymaxi_of n"
    using assms(3,4) by (simp_all add: xmaxi_of_def ymaxi_of_def)
  have k: "xmaxi_of n < length m" "xmaxi_of n < length n"
    and l: "ymaxi_of n < length m" "ymaxi_of n < length n"
    using xmaxi_of_less[OF assms(2)] ymaxi_of_less[OF assms(2)] assms(1,2)
    by (simp_all add: is_mat4_def)
  show "m ! xmaxi_of m ! 0 = n ! xmaxi_of n ! 0"
    unfolding same using column_nth[OF k(1), of 0] column_nth[OF k(2), of 0] assms(3) by simp
  show "m ! ymaxi_of m ! 1 = n ! ymaxi_of n ! 1"
    unfolding same using column_nth[OF l(1), of 1] column_nth[OF l(2), of 1] assms(4) by simp
qed

text \<open>When no update rounds, the function is the function in exact arithmetic.\<close>

lemma exact_updates_rows:
  fixes vol :: volume
  assumes "exact_updates vol [[a0, a1, a2, a3], [b0, b1, b2, b3], [c0, c1, c2, c3], [d0, d1, d2, d3]]"
  defines "kx \<equiv> real_of_int (int (shape vol 2) - 1)" and "ky \<equiv> real_of_int (int (shape vol 1) - 1)"
  shows "representable kx" "representable ky"
    "list_all representable [a3, a0 * kx, a1 * ky, a3 + a0 * kx, a3 + a1 * ky, a3 + a0 * kx + a1 * ky]"
    "list_all representable [b3, b0 * kx, b1 * ky, b3 + b0 * kx, b3 + b1 * ky, b3 + b0 * kx + b1 * ky]"
    "list_all representable [c3, c0 * kx, c1 * ky, c3 + c0 * kx, c3 + c1 * ky, c3 + c0 * kx + c1 * ky]"
    "list_all representable [d3, d0 * kx, d1 * ky, d3 + d0 * kx, d3 + d1 * ky, d3 + d0 * kx + d1 * ky]"
  using assms(1) unfolding exact_updates_def Let_def kx_def ky_def by simp_all

lemma row_pass_exact:
  fixes t c d kx ky :: real and fx fy :: bool and kxi kyi :: int
  assumes kx_def: "kx = (if fx then real_of_int kxi else 0)"
    and ky_def: "ky = (if fy then real_of_int kyi else 0)"
    and kx: "representable (real_of_int kxi)" and ky: "representable (real_of_int kyi)"
    and row: "list_all representable [t, c * real_of_int kxi, d * real_of_int kyi,
        t + c * real_of_int kxi, t + d * real_of_int kyi,
        t + c * real_of_int kxi + d * real_of_int kyi]"
  shows "(if fx then update_entry t c kxi else Some t) = Some (t + c * kx)"
    and "(if fy then update_entry (t + c * kx) d kyi else Some (t + c * kx))
           = Some (t + c * kx + d * ky)"
    and "(if fx then update_entry (- t) (- c) kxi else Some (- t)) = Some (- t - c * kx)"
    and "(if fy then update_entry (- t - c * kx) (- d) kyi else Some (- t - c * kx))
           = Some (- t - c * kx - d * ky)"
proof -
  from row have r: "representable t" "representable (c * real_of_int kxi)"
    "representable (d * real_of_int kyi)" "representable (t + c * real_of_int kxi)"
    "representable (t + d * real_of_int kyi)"
    "representable (t + c * real_of_int kxi + d * real_of_int kyi)"
    by simp_all
  show "(if fx then update_entry t c kxi else Some t) = Some (t + c * kx)"
    using update_entry_exact[OF kx r(2) r(4)] by (simp add: kx_def)
  show "(if fx then update_entry (- t) (- c) kxi else Some (- t)) = Some (- t - c * kx)"
    using update_entry_exact_neg[OF kx r(2) r(4)] by (simp add: kx_def)
  have s: "representable (t + c * kx + d * real_of_int kyi)"
    using r(5,6) by (simp add: kx_def)
  show "(if fy then update_entry (t + c * kx) d kyi else Some (t + c * kx))
           = Some (t + c * kx + d * ky)"
    using update_entry_exact[OF ky r(3) s] by (simp add: ky_def)
  have "- t - c * kx = - (t + c * kx)" by simp
  then show "(if fy then update_entry (- t - c * kx) (- d) kyi else Some (- t - c * kx))
           = Some (- t - c * kx - d * ky)"
    using update_entry_exact_neg[OF ky r(3) s] by (simp add: ky_def)
qed

lemma convert_coords_fl_exact:
  assumes m: "is_mat4 mat" and e: "exact_updates vol mat"
  shows "convert_coords_fl vol mat = Some (convert_coords vol mat)"
proof -
  from m obtain a0 a1 a2 a3 b0 b1 b2 b3 c0 c1 c2 c3 d0 d1 d2 d3 where
    mat: "mat = [[a0, a1, a2, a3], [b0, b1, b2, b3], [c0, c1, c2, c3], [d0, d1, d2, d3]]"
    by (rule is_mat4_explode)
  define fx where "fx \<longleftrightarrow> [- a0, - b0, c0, d0] ! xmaxi_of mat < 0"
  define fy where "fy \<longleftrightarrow> [- a1, - b1, c1, d1] ! ymaxi_of mat < 0"
  define kxi where "kxi = int (shape vol 2) - 1"
  define kyi where "kyi = int (shape vol 1) - 1"
  define kx where "kx = (if fx then real_of_int kxi else 0)"
  define ky where "ky = (if fy then real_of_int kyi else 0)"
  define sx :: real where "sx = (if fx then 1 else - 1)"
  define sy :: real where "sy = (if fy then 1 else - 1)"
  define vol2 where "vol2 = (if fx then flip vol 2 else vol)"
  note ex = convert_coords_explicit[OF mat fx_def fy_def kx_def[unfolded kxi_def]
      ky_def[unfolded kyi_def] sx_def sy_def vol2_def, folded kxi_def kyi_def kx_def ky_def]
  note R = exact_updates_rows[OF e[unfolded mat], folded kxi_def kyi_def]
  note A = row_pass_exact[OF kx_def ky_def R(1,2) R(3)]
  note B = row_pass_exact[OF kx_def ky_def R(1,2) R(4)]
  note C = row_pass_exact[OF kx_def ky_def R(1,2) R(5)]
  note D = row_pass_exact[OF kx_def ky_def R(1,2) R(6)]
  show ?thesis
    unfolding convert_coords_fl_explicit[OF mat fx_def fy_def kxi_def kyi_def sx_def sy_def vol2_def]
    apply (rule exI[of _ "- a3 - a0 * kx"])
    apply (rule exI[of _ "- b3 - b0 * kx"])
    apply (rule exI[of _ "c3 + c0 * kx"])
    apply (rule exI[of _ "d3 + d0 * kx"])
    apply (rule exI[of _ "- a3 - a0 * kx - a1 * ky"])
    apply (rule exI[of _ "- b3 - b0 * kx - b1 * ky"])
    apply (rule exI[of _ "c3 + c0 * kx + c1 * ky"])
    apply (rule exI[of _ "d3 + d0 * kx + d1 * ky"])
    apply (intro conjI)
            apply (rule A(3))
           apply (rule B(3))
          apply (rule C(1))
         apply (rule D(1))
        apply (rule A(4))
       apply (rule B(4))
      apply (rule C(2))
     apply (rule D(2))
    apply (rule ex)
    done
qed

lemma exact_updates_pass:
  assumes m: "is_mat4 mat" and r: "rectangular vol" and e: "exact_updates vol mat"
  shows "exact_updates (fst (convert_coords vol mat)) (snd (convert_coords vol mat))"
proof -
  from m obtain a0 a1 a2 a3 b0 b1 b2 b3 c0 c1 c2 c3 d0 d1 d2 d3 where
    mat: "mat = [[a0, a1, a2, a3], [b0, b1, b2, b3], [c0, c1, c2, c3], [d0, d1, d2, d3]]"
    by (rule is_mat4_explode)
  define fx where "fx \<longleftrightarrow> [- a0, - b0, c0, d0] ! xmaxi_of mat < 0"
  define fy where "fy \<longleftrightarrow> [- a1, - b1, c1, d1] ! ymaxi_of mat < 0"
  define KX where "KX = real_of_int (int (shape vol 2) - 1)"
  define KY where "KY = real_of_int (int (shape vol 1) - 1)"
  define kx where "kx = (if fx then KX else 0)"
  define ky where "ky = (if fy then KY else 0)"
  define sx :: real where "sx = (if fx then 1 else - 1)"
  define sy :: real where "sy = (if fy then 1 else - 1)"
  define vol2 where "vol2 = (if fx then flip vol 2 else vol)"
  define vol3 where "vol3 = (if fy then flip vol2 1 else vol2)"
  note ex = convert_coords_explicit[OF mat fx_def fy_def kx_def[unfolded KX_def]
      ky_def[unfolded KY_def] sx_def sy_def vol2_def, folded KX_def KY_def kx_def ky_def vol3_def]
  have r2: "rectangular vol2" using r by (simp add: vol2_def rectangular_flip2)
  have sh: "shape vol3 ax = shape vol ax" for ax
    by (simp add: vol3_def vol2_def shape_flip1[OF r2, unfolded vol2_def] shape_flip2
        shape_flip1[OF r])
  note R = exact_updates_rows[OF e[unfolded mat], folded KX_def KY_def]
  have row: "list_all representable
       [\<sigma> * (t + c * kx + d * ky), (- \<sigma> * sx * c) * KX, (- \<sigma> * sy * d) * KY,
        \<sigma> * (t + c * kx + d * ky) + (- \<sigma> * sx * c) * KX,
        \<sigma> * (t + c * kx + d * ky) + (- \<sigma> * sy * d) * KY,
        \<sigma> * (t + c * kx + d * ky) + (- \<sigma> * sx * c) * KX + (- \<sigma> * sy * d) * KY]"
    if "list_all representable [t, c * KX, d * KY, t + c * KX, t + d * KY, t + c * KX + d * KY]"
      and "\<sigma> = 1 \<or> \<sigma> = - 1" for t c d \<sigma> :: real
  proof -
    from that(1) have p: "representable t" "representable (c * KX)" "representable (d * KY)"
      "representable (t + c * KX)" "representable (t + d * KY)"
      "representable (t + c * KX + d * KY)"
      by simp_all
    have n: "representable (- t - c * KX)" "representable (- t - d * KY)"
      "representable (- t - c * KX - d * KY)"
      using p(4-6) representable_minus[of "t + c * KX"] representable_minus[of "t + d * KY"]
        representable_minus[of "t + c * KX + d * KY"]
      by simp_all
    show ?thesis
      using that(2) p n
      by (cases fx; cases fy) (auto simp: kx_def ky_def sx_def sy_def algebra_simps representable_minus)
  qed
  have "exact_updates vol3
      [[sx * a0, sy * a1, - a2, - a3 - a0 * kx - a1 * ky],
       [sx * b0, sy * b1, - b2, - b3 - b0 * kx - b1 * ky],
       [- sx * c0, - sy * c1, c2, c3 + c0 * kx + c1 * ky],
       [- sx * d0, - sy * d1, d2, d3 + d0 * kx + d1 * ky]]"
    unfolding exact_updates_def Let_def sh KX_def[symmetric] KY_def[symmetric]
    using R(1,2) row[OF R(3), of "- 1"] row[OF R(4), of "- 1"] row[OF R(5), of 1] row[OF R(6), of 1]
    by (simp add: algebra_simps)
  then show ?thesis by (simp add: ex)
qed

lemma all_less_4: "(\<forall>i<4. P i) \<longleftrightarrow> P 0 \<and> P (Suc 0) \<and> P 2 \<and> P (3::nat)"
proof
  assume "\<forall>i<4. P i"
  then show "P 0 \<and> P (Suc 0) \<and> P 2 \<and> P 3" by simp
next
  assume a: "P 0 \<and> P (Suc 0) \<and> P 2 \<and> P 3"
  show "\<forall>i<4. P i"
  proof (intro allI impI)
    fix i :: nat assume "i < 4"
    then show "P i" using a by (auto elim!: nth4_cases)
  qed
qed

lemma flip_x_fl_physical:
  fixes vol :: volume and mat :: matrix
  assumes rect: "rectangular vol" and m: "is_mat4 mat"
    and s: "s < shape vol 0" and r: "r < shape vol 1" and c: "c < shape vol 2"
    and f: "flip_x_fl (vol, mat) = Some (volx, matx)"
  defines "c' \<equiv> shape vol 2 - 1 - c"
  shows "volx ! s ! r ! c' = vol ! s ! r ! c"
    and "\<forall>ax. shape volx ax = shape vol ax"
    and "column matx 0 = map uminus (column mat 0)"
    and "column matx 1 = column mat 1"
    and "column matx 2 = column mat 2"
    and "\<forall>i<4. Some (matx ! i ! 3)
                  = update_entry (mat ! i ! 3) (mat ! i ! 0) (int (shape vol 2) - 1) \<and>
                physical matx c' r s ! i - physical mat c r s ! i
                  = matx ! i ! 3 - (mat ! i ! 3 + mat ! i ! 0 * (real (shape vol 2) - 1))"
    and "physical matx c' r s = physical mat c r s \<longleftrightarrow>
           (\<forall>i<4. update_entry (mat ! i ! 3) (mat ! i ! 0) (int (shape vol 2) - 1)
                    = Some (mat ! i ! 3 + mat ! i ! 0 * (real (shape vol 2) - 1)))"
proof -
  from m obtain a0 a1 a2 a3 b0 b1 b2 b3 c0 c1 c2 c3 d0 d1 d2 d3 where
    mat: "mat = [[a0, a1, a2, a3], [b0, b1, b2, b3], [c0, c1, c2, c3], [d0, d1, d2, d3]]"
    by (rule is_mat4_explode)
  define k where "k = int (shape vol 2) - 1"
  from f[unfolded mat flip_x_fl_Some, folded k_def] obtain ta tb tc td where
    u: "update_entry a3 a0 k = Some ta" "update_entry b3 b0 k = Some tb"
       "update_entry c3 c0 k = Some tc" "update_entry d3 d0 k = Some td"
    and vx: "volx = flip vol 2"
    and mx: "matx = [[- a0, a1, a2, ta], [- b0, b1, b2, tb], [- c0, c1, c2, tc], [- d0, d1, d2, td]]"
    by auto
  have cr: "real c' = real (shape vol 2) - 1 - real c"
    using c by (simp add: c'_def of_nat_diff)
  have kr: "real_of_int k = real (shape vol 2) - 1"
    using c by (simp add: k_def)
  show "volx ! s ! r ! c' = vol ! s ! r ! c"
    unfolding vx c'_def using rect s r c by (rule flip2_nth)
  show "\<forall>ax. shape volx ax = shape vol ax"
    by (simp add: vx shape_flip2)
  show "column matx 0 = map uminus (column mat 0)" "column matx 1 = column mat 1"
    "column matx 2 = column mat 2"
    by (simp_all add: mx mat column_def)
  show "\<forall>i<4. Some (matx ! i ! 3) = update_entry (mat ! i ! 3) (mat ! i ! 0) (int (shape vol 2) - 1) \<and>
                physical matx c' r s ! i - physical mat c r s ! i
                  = matx ! i ! 3 - (mat ! i ! 3 + mat ! i ! 0 * (real (shape vol 2) - 1))"
    unfolding all_less_4 k_def[symmetric] kr[symmetric]
    by (simp add: mx mat u physical_def cr kr algebra_simps eval_nat_numeral)
  show "physical matx c' r s = physical mat c r s \<longleftrightarrow>
           (\<forall>i<4. update_entry (mat ! i ! 3) (mat ! i ! 0) (int (shape vol 2) - 1)
                    = Some (mat ! i ! 3 + mat ! i ! 0 * (real (shape vol 2) - 1)))"
    unfolding all_less_4 k_def[symmetric] kr[symmetric]
    by (simp add: mx mat u physical_def cr kr eval_nat_numeral) (auto simp: algebra_simps)
qed

lemma flip_y_fl_physical:
  fixes vol :: volume and mat :: matrix
  assumes rect: "rectangular vol" and m: "is_mat4 mat"
    and s: "s < shape vol 0" and r: "r < shape vol 1"
    and f: "flip_y_fl (vol, mat) = Some (voly, maty)"
  defines "r' \<equiv> shape vol 1 - 1 - r"
  shows "voly ! s ! r' ! c = vol ! s ! r ! c"
    and "\<forall>ax. shape voly ax = shape vol ax"
    and "column maty 0 = column mat 0"
    and "column maty 1 = map uminus (column mat 1)"
    and "column maty 2 = column mat 2"
    and "\<forall>i<4. Some (maty ! i ! 3)
                  = update_entry (mat ! i ! 3) (mat ! i ! 1) (int (shape vol 1) - 1) \<and>
                physical maty c r' s ! i - physical mat c r s ! i
                  = maty ! i ! 3 - (mat ! i ! 3 + mat ! i ! 1 * (real (shape vol 1) - 1))"
    and "physical maty c r' s = physical mat c r s \<longleftrightarrow>
           (\<forall>i<4. update_entry (mat ! i ! 3) (mat ! i ! 1) (int (shape vol 1) - 1)
                    = Some (mat ! i ! 3 + mat ! i ! 1 * (real (shape vol 1) - 1)))"
proof -
  from m obtain a0 a1 a2 a3 b0 b1 b2 b3 c0 c1 c2 c3 d0 d1 d2 d3 where
    mat: "mat = [[a0, a1, a2, a3], [b0, b1, b2, b3], [c0, c1, c2, c3], [d0, d1, d2, d3]]"
    by (rule is_mat4_explode)
  define k where "k = int (shape vol 1) - 1"
  from f[unfolded mat flip_y_fl_Some, folded k_def] obtain ta tb tc td where
    u: "update_entry a3 a1 k = Some ta" "update_entry b3 b1 k = Some tb"
       "update_entry c3 c1 k = Some tc" "update_entry d3 d1 k = Some td"
    and vy: "voly = flip vol 1"
    and my: "maty = [[a0, - a1, a2, ta], [b0, - b1, b2, tb], [c0, - c1, c2, tc], [d0, - d1, d2, td]]"
    by auto
  have rr: "real r' = real (shape vol 1) - 1 - real r"
    using r by (simp add: r'_def of_nat_diff)
  have kr: "real_of_int k = real (shape vol 1) - 1"
    using r by (simp add: k_def)
  show "voly ! s ! r' ! c = vol ! s ! r ! c"
    unfolding vy r'_def using flip1_nth[OF rect s r] by simp
  show "\<forall>ax. shape voly ax = shape vol ax"
    using shape_flip1[OF rect] by (simp add: vy)
  show "column maty 0 = column mat 0" "column maty 1 = map uminus (column mat 1)"
    "column maty 2 = column mat 2"
    by (simp_all add: my mat column_def)
  show "\<forall>i<4. Some (maty ! i ! 3) = update_entry (mat ! i ! 3) (mat ! i ! 1) (int (shape vol 1) - 1) \<and>
                physical maty c r' s ! i - physical mat c r s ! i
                  = maty ! i ! 3 - (mat ! i ! 3 + mat ! i ! 1 * (real (shape vol 1) - 1))"
    unfolding all_less_4 k_def[symmetric] kr[symmetric]
    by (simp add: my mat u physical_def rr kr algebra_simps eval_nat_numeral)
  show "physical maty c r' s = physical mat c r s \<longleftrightarrow>
           (\<forall>i<4. update_entry (mat ! i ! 3) (mat ! i ! 1) (int (shape vol 1) - 1)
                    = Some (mat ! i ! 3 + mat ! i ! 1 * (real (shape vol 1) - 1)))"
    unfolding all_less_4 k_def[symmetric] kr[symmetric]
    by (simp add: my mat u physical_def rr kr eval_nat_numeral) (auto simp: algebra_simps)
qed

section \<open>Claims about the Coordinate Normalizer\<close>

lemmas cc_eval = convert_coords_def Let_def dot_def convmat_eq ncols_def column_def
  xmaxi_of_def ymaxi_of_def argmax_def flip_x_def flip_y_def flip_def shape_def
  add_scaled_col_def negate_col_def upt_conv_Cons is_mat4_def rectangular_def physical_def

lemmas ccfl_eval = convert_coords_fl_def flip_x_fl_def flip_y_fl_def add_scaled_col_fl_def
  update_entry_def Let_def dot_def convmat_eq ncols_def column_def
  xmaxi_of_def ymaxi_of_def argmax_def flip_def shape_def
  negate_col_def upt_conv_Cons is_mat4_def rectangular_def physical_def fl64_numeral

lemmas fl_tie = fl64_tie[simplified]

text \<open>
  Claim C2, as amended. Each flip branch of \<open>convert_coords\<close> moves every voxel value
  to the mirrored index of its row (or column) and changes no value: the reindexing is a
  bijection of the index range and the shape stays. The first three columns of the affine
  are exact: the column of the flipped axis is negated, the others stay. The translation
  is updated in float64, so the new affine sends the new index of a value to the point the
  old affine gave it displaced, row by row, by the rounding error of
  \<open>mat[:,3] + mat[:,k]*(extent - 1)\<close>: the point is the same if and only if the update
  is exact in every row. The claim as written, for every pair, fails where the update
  rounds. The theorem is about a flip that leaves the matrix finite.
\<close>

theorem flip_keeps_physical_coordinates:
  fixes vol :: volume and mat :: matrix
  assumes "rectangular vol" "is_mat4 mat"
    and "s < shape vol 0" "r < shape vol 1" "c < shape vol 2"
    and "flip_x_fl (vol, mat) = Some (volx, matx)"
    and "flip_y_fl (vol, mat) = Some (voly, maty)"
  defines "c' \<equiv> shape vol 2 - 1 - c" and "r' \<equiv> shape vol 1 - 1 - r"
  shows "volx ! s ! r ! c' = vol ! s ! r ! c \<and>
         voly ! s ! r' ! c = vol ! s ! r ! c \<and>
         c' < shape vol 2 \<and> shape vol 2 - 1 - c' = c \<and>
         r' < shape vol 1 \<and> shape vol 1 - 1 - r' = r \<and>
         (\<forall>ax. shape volx ax = shape vol ax) \<and> (\<forall>ax. shape voly ax = shape vol ax) \<and>
         column matx 0 = map uminus (column mat 0) \<and> column matx 1 = column mat 1 \<and>
         column matx 2 = column mat 2 \<and>
         column maty 0 = column mat 0 \<and> column maty 1 = map uminus (column mat 1) \<and>
         column maty 2 = column mat 2 \<and>
         (\<forall>i<4. Some (matx ! i ! 3)
                  = update_entry (mat ! i ! 3) (mat ! i ! 0) (int (shape vol 2) - 1) \<and>
                physical matx c' r s ! i - physical mat c r s ! i
                  = matx ! i ! 3 - (mat ! i ! 3 + mat ! i ! 0 * (real (shape vol 2) - 1))) \<and>
         (\<forall>i<4. Some (maty ! i ! 3)
                  = update_entry (mat ! i ! 3) (mat ! i ! 1) (int (shape vol 1) - 1) \<and>
                physical maty c r' s ! i - physical mat c r s ! i
                  = maty ! i ! 3 - (mat ! i ! 3 + mat ! i ! 1 * (real (shape vol 1) - 1))) \<and>
         (physical matx c' r s = physical mat c r s \<longleftrightarrow>
           (\<forall>i<4. update_entry (mat ! i ! 3) (mat ! i ! 0) (int (shape vol 2) - 1)
                    = Some (mat ! i ! 3 + mat ! i ! 0 * (real (shape vol 2) - 1)))) \<and>
         (physical maty c r' s = physical mat c r s \<longleftrightarrow>
           (\<forall>i<4. update_entry (mat ! i ! 3) (mat ! i ! 1) (int (shape vol 1) - 1)
                    = Some (mat ! i ! 3 + mat ! i ! 1 * (real (shape vol 1) - 1))))"
proof -
  note x = flip_x_fl_physical[OF assms(1-6), folded c'_def]
  note y = flip_y_fl_physical[OF assms(1-4) assms(7), folded r'_def]
  have i: "c' < shape vol 2" "shape vol 2 - 1 - c' = c" "r' < shape vol 1" "shape vol 1 - 1 - r' = r"
    using assms(4,5) by (simp_all add: c'_def r'_def)
  show ?thesis
    apply (intro conjI)
    apply (rule x(1))
    apply (rule y(1))
    apply (rule i(1))
    apply (rule i(2))
    apply (rule i(3))
    apply (rule i(4))
    apply (rule x(2))
    apply (rule y(2))
    apply (rule x(3))
    apply (rule x(4))
    apply (rule x(5))
    apply (rule y(3))
    apply (rule y(4))
    apply (rule y(5))
    apply (rule x(6))
    apply (rule y(6))
    apply (rule x(7))
    apply (rule y(7))
    done
qed

theorem flip_keeps_physical_coordinates_witness:
  "rectangular [[[1, 2, 3], [4, 5, 6]]] \<and>
   is_mat4 [[- 1, 0, 0, 5], [0, - 1, 0, 7], [0, 0, 2, 0], [0, 0, 0, 1]] \<and>
   flip_x_fl ([[[1, 2, 3], [4, 5, 6]]], [[- 1, 0, 0, 5], [0, - 1, 0, 7], [0, 0, 2, 0], [0, 0, 0, 1]])
     = Some ([[[3, 2, 1], [6, 5, 4]]], [[1, 0, 0, 3], [0, - 1, 0, 7], [0, 0, 2, 0], [0, 0, 0, 1]]) \<and>
   flip_y_fl ([[[1, 2, 3], [4, 5, 6]]], [[- 1, 0, 0, 5], [0, - 1, 0, 7], [0, 0, 2, 0], [0, 0, 0, 1]])
     = Some ([[[4, 5, 6], [1, 2, 3]]], [[- 1, 0, 0, 5], [0, 1, 0, 6], [0, 0, 2, 0], [0, 0, 0, 1]]) \<and>
   [[[3, 2, 1], [6, 5, 4]]] ! 0 ! 1 ! 2 = [[[1, 2, 3], [4, 5, 6 :: real]]] ! 0 ! 1 ! 0 \<and>
   physical [[1, 0, 0, 3], [0, - 1, 0, 7], [0, 0, 2, 0], [0, 0, 0, 1]] 2 1 0
     = physical [[- 1, 0, 0, 5], [0, - 1, 0, 7], [0, 0, 2, 0], [0, 0, 0, 1]] 0 1 0"
proof -
  let ?V = "[[[1, 2, 3], [4, 5, 6 :: real]]]"
  let ?M = "[[- 1, 0, 0, 5], [0, - 1, 0, 7], [0, 0, 2, 0], [0, 0, 0, 1 :: real]]"
  have h: "rectangular ?V" "is_mat4 ?M" "0 < shape ?V 0" "1 < shape ?V 1" "0 < shape ?V 2"
    by (simp_all add: rectangular_def is_mat4_def shape_def)
  have x: "flip_x_fl (?V, ?M)
     = Some ([[[3, 2, 1], [6, 5, 4]]], [[1, 0, 0, 3], [0, - 1, 0, 7], [0, 0, 2, 0], [0, 0, 0, 1]])"
    by (simp add: ccfl_eval)
  have y: "flip_y_fl (?V, ?M)
     = Some ([[[4, 5, 6], [1, 2, 3]]], [[- 1, 0, 0, 5], [0, 1, 0, 6], [0, 0, 2, 0], [0, 0, 0, 1]])"
    by (simp add: ccfl_eval)
  have sh: "shape ?V 2 - 1 - 0 = 2" by (simp add: shape_def)
  have e: "\<forall>i<4. update_entry (?M ! i ! 3) (?M ! i ! 0) (int (shape ?V 2) - 1)
                    = Some (?M ! i ! 3 + ?M ! i ! 0 * (real (shape ?V 2) - 1))"
    unfolding all_less_4 by (simp add: update_entry_def shape_def eval_nat_numeral fl64_numeral)
  note t = flip_keeps_physical_coordinates [OF h x y]
  from t have a: "[[[3, 2, 1], [6, 5, 4]]] ! 0 ! 1 ! (shape ?V 2 - 1 - 0) = ?V ! 0 ! 1 ! 0"
    by (rule conjunct1)
  from t e have b: "physical [[1, 0, 0, 3], [0, - 1, 0, 7], [0, 0, 2, 0], [0, 0, 0, 1]]
           (shape ?V 2 - 1 - 0) 1 0 = physical ?M 0 1 0"
    by blast
  show ?thesis
    using h(1,2) x y a b unfolding sh by blast
qed

theorem flip_keeps_physical_coordinates_counterexample:
  "flip_x_fl ([[[1, 2]]], [[- (2 ^ 53), 0, 0, - 1], [0, 1, 0, 0], [0, 0, 1, 0], [0, 0, 0, 1]])
     = Some ([[[2, 1]]], [[2 ^ 53, 0, 0, - (2 ^ 53)], [0, 1, 0, 0], [0, 0, 1, 0], [0, 0, 0, 1]]) \<and>
   [[[1, 2 :: real]]] ! 0 ! 0 ! 0 = 1 \<and> [[[2, 1 :: real]]] ! 0 ! 0 ! 1 = 1 \<and>
   physical [[- (2 ^ 53), 0, 0, - 1], [0, 1, 0, 0], [0, 0, 1, 0], [0, 0, 0, 1]] 0 0 0
     = [- 1, 0, 0, 1] \<and>
   physical [[2 ^ 53, 0, 0, - (2 ^ 53)], [0, 1, 0, 0], [0, 0, 1, 0], [0, 0, 0, 1]] 1 0 0
     = [0, 0, 0, 1]"
  by (simp add: ccfl_eval fl_tie)

text \<open>
  Claim C3, as amended. Applying \<open>convert_coords\<close> twice gives back the voxel array
  and the first three columns of the affine exactly if and only if the entries of the given
  affine at \<open>(xmaxi, 0)\<close> and \<open>(ymaxi, 1)\<close> are not negative, that is, if the pair
  already has the sign convention the normalizer establishes (as every pair it returns
  has). Then the translation column comes back as well when no update of the two passes
  rounds (\<open>exact_updates\<close>), and up to the rounding of these updates otherwise. The
  claim as written fails twice: a second pass does not undo a flip whose guard the first
  pass did not take, and where an update rounds the translation is not restored. The
  theorem is about two passes that leave the matrix finite.
\<close>

theorem convert_coords_round_trip:
  assumes m: "is_mat4 mat" and r: "rectangular vol"
    and p1: "convert_coords_fl vol mat = Some (vol1, mat1)"
    and p2: "convert_coords_fl vol1 mat1 = Some (vol2, mat2)"
  shows "(vol2 = vol \<and> column mat2 0 = column mat 0 \<and> column mat2 1 = column mat 1 \<and>
          column mat2 2 = column mat 2
            \<longleftrightarrow> 0 \<le> mat ! xmaxi_of mat ! 0 \<and> 0 \<le> mat ! ymaxi_of mat ! 1) \<and>
         (0 \<le> mat ! xmaxi_of mat ! 0 \<and> 0 \<le> mat ! ymaxi_of mat ! 1 \<and> exact_updates vol mat
            \<longrightarrow> vol2 = vol \<and> mat2 = mat)"
proof -
  define V1 where "V1 = fst (convert_coords vol mat)"
  define M1 where "M1 = snd (convert_coords vol mat)"
  define V2 where "V2 = fst (convert_coords V1 M1)"
  define M2 where "M2 = snd (convert_coords V1 M1)"
  note a1 = convert_coords_fl_agree[OF m p1, folded V1_def M1_def]
  note a2 = convert_coords_fl_agree[OF a1(2) p2, unfolded a1(1)]
  have M1: "is_mat4 M1" unfolding M1_def using m by (rule convert_coords_columns(1))
  have M2: "is_mat4 M2" unfolding M2_def using M1 by (rule convert_coords_columns(1))
  note c = convert_coords_cong[OF a1(2) M1 a1(3-5), of V1, folded V2_def M2_def]
  have v2: "vol2 = V2" using a2(1) c(1) by simp
  have cols: "column mat2 0 = column M2 0" "column mat2 1 = column M2 1"
    "column mat2 2 = column M2 2"
    using a2(3-5) c(2-4) by simp_all
  have cc2: "convert_coords V1 M1 = (V2, M2)" by (simp add: V2_def M2_def)
  have i: "vol2 = vol \<and> column mat2 0 = column mat 0 \<and> column mat2 1 = column mat 1 \<and>
          column mat2 2 = column mat 2
            \<longleftrightarrow> 0 \<le> mat ! xmaxi_of mat ! 0 \<and> 0 \<le> mat ! ymaxi_of mat ! 1"
  proof
    assume eq: "vol2 = vol \<and> column mat2 0 = column mat 0 \<and> column mat2 1 = column mat 1 \<and>
          column mat2 2 = column mat 2"
    from convert_coords_dominant[OF M1 cc2]
    have d: "0 \<le> M2 ! xmaxi_of M2 ! 0" "0 \<le> M2 ! ymaxi_of M2 ! 1" by blast+
    have "column mat 0 = column M2 0" "column mat 1 = column M2 1"
      using eq cols by simp_all
    from dominant_cong[OF m M2 this] d
    show "0 \<le> mat ! xmaxi_of mat ! 0 \<and> 0 \<le> mat ! ymaxi_of mat ! 1" by simp
  next
    assume "0 \<le> mat ! xmaxi_of mat ! 0 \<and> 0 \<le> mat ! ymaxi_of mat ! 1"
    then have "convert_coords V1 M1 = (vol, mat)"
      unfolding V1_def M1_def using m r by (simp add: convert_coords_twice)
    with cc2 have "V2 = vol" "M2 = mat" by simp_all
    with v2 cols show "vol2 = vol \<and> column mat2 0 = column mat 0 \<and>
          column mat2 1 = column mat 1 \<and> column mat2 2 = column mat 2"
      by simp
  qed
  have ii: "vol2 = vol \<and> mat2 = mat"
    if d: "0 \<le> mat ! xmaxi_of mat ! 0 \<and> 0 \<le> mat ! ymaxi_of mat ! 1"
      and e: "exact_updates vol mat"
  proof -
    from convert_coords_fl_exact[OF m e] p1 have 1: "(vol1, mat1) = (V1, M1)"
      by (simp add: V1_def M1_def)
    have "exact_updates V1 M1"
      unfolding V1_def M1_def using m r e by (rule exact_updates_pass)
    from convert_coords_fl_exact[OF M1 this] p2 1 have "(vol2, mat2) = convert_coords V1 M1"
      by simp
    also have "\<dots> = (vol, mat)"
      unfolding V1_def M1_def using m r d by (simp add: convert_coords_twice)
    finally show ?thesis by simp
  qed
  from i ii show ?thesis by blast
qed

theorem convert_coords_round_trip_witness:
  "is_mat4 [[1, 0, 0, - 10], [0, 1, 0, - 20], [0, 0, 2, 0], [0, 0, 0, 1]] \<and>
   rectangular [[[1, 2], [3, 4]]] \<and>
   convert_coords_fl [[[1, 2], [3, 4]]]
      [[1, 0, 0, - 10], [0, 1, 0, - 20], [0, 0, 2, 0], [0, 0, 0, 1]]
     = Some ([[[4, 3], [2, 1]]], [[1, 0, 0, 9], [0, 1, 0, 19], [0, 0, 2, 0], [0, 0, 0, 1]]) \<and>
   convert_coords_fl [[[4, 3], [2, 1]]] [[1, 0, 0, 9], [0, 1, 0, 19], [0, 0, 2, 0], [0, 0, 0, 1]]
     = Some ([[[1, 2], [3, 4]]], [[1, 0, 0, - 10], [0, 1, 0, - 20], [0, 0, 2, 0], [0, 0, 0, 1]]) \<and>
   exact_updates [[[1, 2], [3, 4]]] [[1, 0, 0, - 10], [0, 1, 0, - 20], [0, 0, 2, 0], [0, 0, 0, 1]] \<and>
   0 \<le> [[1, 0, 0, - 10], [0, 1, 0, - 20], [0, 0, 2, 0], [0, 0, 0, 1 :: real]]
          ! xmaxi_of [[1, 0, 0, - 10], [0, 1, 0, - 20], [0, 0, 2, 0], [0, 0, 0, 1]] ! 0 \<and>
   0 \<le> [[1, 0, 0, - 10], [0, 1, 0, - 20], [0, 0, 2, 0], [0, 0, 0, 1 :: real]]
          ! ymaxi_of [[1, 0, 0, - 10], [0, 1, 0, - 20], [0, 0, 2, 0], [0, 0, 0, 1]] ! 1"
proof -
  let ?V = "[[[1, 2], [3, 4 :: real]]]"
  let ?M = "[[1, 0, 0, - 10], [0, 1, 0, - 20], [0, 0, 2, 0], [0, 0, 0, 1 :: real]]"
  have h: "is_mat4 ?M" "rectangular ?V"
    by (simp_all add: is_mat4_def rectangular_def shape_def)
  have p1: "convert_coords_fl ?V ?M
     = Some ([[[4, 3], [2, 1]]], [[1, 0, 0, 9], [0, 1, 0, 19], [0, 0, 2, 0], [0, 0, 0, 1]])"
    by (simp add: ccfl_eval)
  have p2: "convert_coords_fl [[[4, 3], [2, 1]]]
       [[1, 0, 0, 9], [0, 1, 0, 19], [0, 0, 2, 0], [0, 0, 0, 1]] = Some (?V, ?M)"
    by (simp add: ccfl_eval)
  have e: "exact_updates ?V ?M"
    by (simp add: exact_updates_def representable_def shape_def fl64_numeral)
  from convert_coords_round_trip [OF h p1 p2]
  have "0 \<le> ?M ! xmaxi_of ?M ! 0 \<and> 0 \<le> ?M ! ymaxi_of ?M ! 1" by blast
  with h p1 p2 e show ?thesis by blast
qed

theorem convert_coords_round_trip_counterexample:
  "convert_coords_fl [[[1, 2], [3, 4]]] [[- 1, 0, 0, 0], [0, 1, 0, 0], [0, 0, 1, 0], [0, 0, 0, 1]]
     = Some ([[[3, 4], [1, 2]]], [[1, 0, 0, 0], [0, 1, 0, - 1], [0, 0, 1, 0], [0, 0, 0, 1]]) \<and>
   convert_coords_fl [[[3, 4], [1, 2]]] [[1, 0, 0, 0], [0, 1, 0, - 1], [0, 0, 1, 0], [0, 0, 0, 1]]
     = Some ([[[2, 1], [4, 3]]], [[1, 0, 0, - 1], [0, 1, 0, 0], [0, 0, 1, 0], [0, 0, 0, 1]]) \<and>
   [[[2, 1], [4, 3]]] \<noteq> [[[1, 2], [3, 4 :: real]]] \<and>
   [[1, 0, 0, - 1], [0, 1, 0, 0], [0, 0, 1, 0], [0, 0, 0, 1]]
     \<noteq> [[- 1, 0, 0, 0], [0, 1, 0, 0], [0, 0, 1, 0], [0, 0, 0, 1 :: real]] \<and>
   0 \<le> [[2 ^ 53, 0, 0, 1], [0, 1, 0, 0], [0, 0, 1, 0], [0, 0, 0, 1 :: real]]
          ! xmaxi_of [[2 ^ 53, 0, 0, 1], [0, 1, 0, 0], [0, 0, 1, 0], [0, 0, 0, 1]] ! 0 \<and>
   0 \<le> [[2 ^ 53, 0, 0, 1], [0, 1, 0, 0], [0, 0, 1, 0], [0, 0, 0, 1 :: real]]
          ! ymaxi_of [[2 ^ 53, 0, 0, 1], [0, 1, 0, 0], [0, 0, 1, 0], [0, 0, 0, 1]] ! 1 \<and>
   convert_coords_fl [[[1, 2]]] [[2 ^ 53, 0, 0, 1], [0, 1, 0, 0], [0, 0, 1, 0], [0, 0, 0, 1]]
     = Some ([[[2, 1]]], [[2 ^ 53, 0, 0, - (2 ^ 53)], [0, 1, 0, 0], [0, 0, 1, 0], [0, 0, 0, 1]]) \<and>
   convert_coords_fl [[[2, 1]]] [[2 ^ 53, 0, 0, - (2 ^ 53)], [0, 1, 0, 0], [0, 0, 1, 0], [0, 0, 0, 1]]
     = Some ([[[1, 2]]], [[2 ^ 53, 0, 0, 0], [0, 1, 0, 0], [0, 0, 1, 0], [0, 0, 0, 1]])"
  by (simp add: ccfl_eval fl_tie)

text \<open>
  Claim C4, as amended. For every 4x4 affine, after \<open>convert_coords\<close> the entries at
  \<open>(xmaxi, 0)\<close> and \<open>(ymaxi, 1)\<close> are not negative, where \<open>xmaxi\<close> is the row index of
  the entry of largest magnitude in column 0 and \<open>ymaxi\<close> the row index of the entry of
  largest magnitude in column 1 once the entry of row \<open>xmaxi\<close> is set to zero; the
  indices found on the returned matrix are the ones the function used. The two indices
  are distinct whenever column 1 has a non-zero entry in a row other than \<open>xmaxi\<close>.
  Without that condition they can coincide: when the rest of column 1 is zero the maximum
  is found at index 0, which is \<open>xmaxi\<close> when column 0 is dominated by its first entry.
\<close>

theorem convert_coords_dominant_nonneg:
  assumes m: "is_mat4 mat" and cc: "convert_coords vol mat = (vol', mat')"
  shows "0 \<le> mat' ! xmaxi_of mat' ! 0 \<and> 0 \<le> mat' ! ymaxi_of mat' ! 1 \<and>
         xmaxi_of mat' = xmaxi_of (dot convmat mat) \<and>
         ymaxi_of mat' = ymaxi_of (dot convmat mat) \<and>
         xmaxi_of mat' < 4 \<and> ymaxi_of mat' < 4 \<and>
         ((\<exists>j<4. j \<noteq> xmaxi_of mat' \<and> mat' ! j ! 1 \<noteq> 0) \<longrightarrow>
            xmaxi_of mat' \<noteq> ymaxi_of mat')"
proof -
  have "is_mat4 mat'"
    using convert_coords_columns(1)[OF m, of vol] cc by simp
  then have "(\<exists>j<4. j \<noteq> xmaxi_of mat' \<and> mat' ! j ! 1 \<noteq> 0) \<longrightarrow>
            xmaxi_of mat' \<noteq> ymaxi_of mat'"
    by (auto dest: maxi_distinct)
  with convert_coords_dominant[OF m cc] show ?thesis by blast
qed

theorem convert_coords_dominant_nonneg_witness:
  "is_mat4 [[1, 0, 0, - 10], [0, 1, 0, - 20], [0, 0, 2, 0], [0, 0, 0, 1]] \<and>
   convert_coords [[[1, 2], [3, 4]]]
      [[1, 0, 0, - 10], [0, 1, 0, - 20], [0, 0, 2, 0], [0, 0, 0, 1]]
     = ([[[4, 3], [2, 1]]], [[1, 0, 0, 9], [0, 1, 0, 19], [0, 0, 2, 0], [0, 0, 0, 1]]) \<and>
   xmaxi_of [[1, 0, 0, 9], [0, 1, 0, 19], [0, 0, 2, 0], [0, 0, 0, 1]] = 0 \<and>
   ymaxi_of [[1, 0, 0, 9], [0, 1, 0, 19], [0, 0, 2, 0], [0, 0, 0, 1]] = 1 \<and>
   (\<exists>j<4. j \<noteq> xmaxi_of [[1, 0, 0, 9], [0, 1, 0, 19], [0, 0, 2, 0], [0, 0, 0, 1]] \<and>
      [[1, 0, 0, 9], [0, 1, 0, 19], [0, 0, 2, 0], [0, 0, 0, 1 :: real]] ! j ! 1 \<noteq> 0) \<and>
   xmaxi_of [[1, 0, 0, 9], [0, 1, 0, 19], [0, 0, 2, 0], [0, 0, 0, 1]]
     \<noteq> ymaxi_of [[1, 0, 0, 9], [0, 1, 0, 19], [0, 0, 2, 0], [0, 0, 0, 1]]"
proof -
  have h: "is_mat4 [[1, 0, 0, - 10], [0, 1, 0, - 20], [0, 0, 2, 0], [0, 0, 0, 1]]"
    by (simp add: is_mat4_def)
  have c: "convert_coords [[[1, 2], [3, 4]]]
      [[1, 0, 0, - 10], [0, 1, 0, - 20], [0, 0, 2, 0], [0, 0, 0, 1]]
     = ([[[4, 3], [2, 1]]], [[1, 0, 0, 9], [0, 1, 0, 19], [0, 0, 2, 0], [0, 0, 0, 1]])"
    by (simp add: cc_eval)
  have x: "xmaxi_of [[1, 0, 0, 9], [0, 1, 0, 19], [0, 0, 2, 0], [0, 0, 0, 1]] = 0"
    by (simp add: xmaxi_of_def column_def argmax_def)
  have e: "\<exists>j<4. j \<noteq> xmaxi_of [[1, 0, 0, 9], [0, 1, 0, 19], [0, 0, 2, 0], [0, 0, 0, 1]] \<and>
      [[1, 0, 0, 9], [0, 1, 0, 19], [0, 0, 2, 0], [0, 0, 0, 1 :: real]] ! j ! 1 \<noteq> 0"
    unfolding x by (rule exI[of _ 1]) simp
  have y: "ymaxi_of [[1, 0, 0, 9], [0, 1, 0, 19], [0, 0, 2, 0], [0, 0, 0, 1]] = 1"
    by (simp add: ymaxi_of_def xmaxi_of_def column_def argmax_def)
  show ?thesis
    using h c x y e convert_coords_dominant_nonneg [OF h c] by simp
qed

theorem convert_coords_dominant_nonneg_counterexample:
  "is_mat4 [[1, 1, 0, 0], [0, 0, 0, 0], [0, 0, 1, 0], [0, 0, 0, 1]] \<and>
   xmaxi_of (dot convmat [[1, 1, 0, 0], [0, 0, 0, 0], [0, 0, 1, 0], [0, 0, 0, 1]])
     = ymaxi_of (dot convmat [[1, 1, 0, 0], [0, 0, 0, 0], [0, 0, 1, 0], [0, 0, 0, 1]]) \<and>
   xmaxi_of (snd (convert_coords [[[1, 2], [3, 4]]]
       [[1, 1, 0, 0], [0, 0, 0, 0], [0, 0, 1, 0], [0, 0, 0, 1]]))
     = ymaxi_of (snd (convert_coords [[[1, 2], [3, 4]]]
       [[1, 1, 0, 0], [0, 0, 0, 0], [0, 0, 1, 0], [0, 0, 0, 1]]))"
  by (simp add: cc_eval)

section \<open>Claims about the Volume Reconstructor\<close>




text \<open>
  Claim C5, as amended. In the matrix that \<open>create_affine\<close> returns, the slice-step
  column and the origin column have no non-zero component below \<open>1e-6\<close> in magnitude,
  and columns 0 and 1 are the unit vectors \<open>u\<close> and \<open>v\<close>, which have no such
  component either, multiplied by the pixel spacing. The products are not set to zero
  again, so columns 0 and 1 can hold a non-zero entry below \<open>1e-6\<close>; that is where the
  claim as written fails. The last statement of \<open>convert_coords\<close> leaves no negative
  zero in any matrix and changes no value.
\<close>

theorem small_components_snapped:
  assumes ps: "ps \<noteq> []" and o: "orientation iop = Some (u, v)"
  shows "\<exists>res. create_affine ipp iop ps = Returns res \<and>
           affine res = assemble (vmap (\<lambda>x. x * fst (hd ps)) u) (vmap (\<lambda>x. x * snd (hd ps)) v)
                          (fst (fit_positions ipp)) (snd (fit_positions ipp)) \<and>
           snapped3 u \<and> snapped3 v \<and>
           snapped3 (fst (fit_positions ipp)) \<and> snapped3 (snd (fit_positions ipp)) \<and>
           (\<forall>i<3. (affine res ! i ! 2 = 0 \<or> 1 / 10 ^ 6 \<le> \<bar>affine res ! i ! 2\<bar>) \<and>
                  (affine res ! i ! 3 = 0 \<or> 1 / 10 ^ 6 \<le> \<bar>affine res ! i ! 3\<bar>)) \<and>
           (\<forall>m. (\<forall>row\<in>set (eliminate_negzero m). \<forall>e\<in>set row. e \<noteq> NegZero) \<and>
                map (map fp_val) (eliminate_negzero m) = map (map fp_val) m)"
proof -
  from ps obtain ps0 rest where ps': "ps = ps0 # rest" by (cases ps) auto
  obtain a0 a1 a2 b0 b1 b2 where f: "fit_positions ipp = ((a0, a1, a2), (b0, b1, b2))"
    by (metis prod_cases3 surj_pair)
  obtain u0 u1 u2 v0 v1 v2 where uv: "u = (u0, u1, u2)" "v = (v0, v1, v2)"
    by (cases u, cases v) auto
  have s: "snapped3 (a0, a1, a2)" "snapped3 (b0, b1, b2)"
    using fit_positions_snapped[of ipp] by (simp_all add: f)
  have e: "\<forall>i<3. ([[x0, x1, a0, b0], [y0, y1, a1, b1], [z0, z1, a2, b2], [0, 0, 0, 1]] ! i ! 2 = 0
              \<or> 1 / 10 ^ 6 \<le> \<bar>[[x0, x1, a0, b0], [y0, y1, a1, b1], [z0, z1, a2, b2], [0, 0, 0, 1]] ! i ! 2\<bar>)
            \<and> ([[x0, x1, a0, b0], [y0, y1, a1, b1], [z0, z1, a2, b2], [0, 0, 0, 1]] ! i ! 3 = 0
              \<or> 1 / 10 ^ 6 \<le> \<bar>[[x0, x1, a0, b0], [y0, y1, a1, b1], [z0, z1, a2, b2], [0, 0, 0, 1]] ! i ! 3\<bar>)"
    for x0 x1 y0 y1 z0 z1 :: real
  proof (intro allI impI)
    fix i :: nat assume "i < 3"
    then consider "i = 0" | "i = 1" | "i = 2" by arith
    then show "([[x0, x1, a0, b0], [y0, y1, a1, b1], [z0, z1, a2, b2], [0, 0, 0, 1]] ! i ! 2 = 0
              \<or> 1 / 10 ^ 6 \<le> \<bar>[[x0, x1, a0, b0], [y0, y1, a1, b1], [z0, z1, a2, b2], [0, 0, 0, 1]] ! i ! 2\<bar>)
            \<and> ([[x0, x1, a0, b0], [y0, y1, a1, b1], [z0, z1, a2, b2], [0, 0, 0, 1]] ! i ! 3 = 0
              \<or> 1 / 10 ^ 6 \<le> \<bar>[[x0, x1, a0, b0], [y0, y1, a1, b1], [z0, z1, a2, b2], [0, 0, 0, 1]] ! i ! 3\<bar>)"
      using s by cases (simp_all add: snapped3_def)
  qed
  have z: "\<forall>m. (\<forall>row\<in>set (eliminate_negzero m). \<forall>e\<in>set row. e \<noteq> NegZero) \<and>
                map (map fp_val) (eliminate_negzero m) = map (map fp_val) m"
    using eliminate_negzero_no_negzero eliminate_negzero_val by blast
  show ?thesis
    unfolding create_affine_Returns[OF ps' o]
    using orientation_snapped[OF o] s z e
    by (simp add: f ps' uv assemble_def vmap_def)
qed

theorem small_components_snapped_witness:
  "[(1, 1 :: real)] \<noteq> [] \<and> orientation [((1, 0, 0), (0, 1, 0))] = Some ((1, 0, 0), (0, 1, 0)) \<and>
   (\<exists>res. create_affine [(0, 0, 0)] [((1, 0, 0), (0, 1, 0))] [(1, 1)] = Returns res \<and>
          snapped3 (fst (fit_positions [(0, 0, 0)])) \<and>
          (\<forall>i<3. (affine res ! i ! 2 = 0 \<or> 1 / 10 ^ 6 \<le> \<bar>affine res ! i ! 2\<bar>) \<and>
                 (affine res ! i ! 3 = 0 \<or> 1 / 10 ^ 6 \<le> \<bar>affine res ! i ! 3\<bar>)) \<and>
          (\<forall>row\<in>set (eliminate_negzero [[NegZero, Num 1], [Num 0, Num (- 2)]]).
              \<forall>e\<in>set row. e \<noteq> NegZero))"
proof -
  have h: "[(1, 1 :: real)] \<noteq> []"
    "orientation [((1, 0, 0), (0, 1, 0))] = Some ((1, 0, 0), (0, 1, 0))"
    by (simp_all add: orientation_def iop_mean_def normalize3_def norm3_def dot3_def vmap_def vsum_def
        snap_def)
  from small_components_snapped [OF h, of "[(0, 0, 0)]"] h show ?thesis by blast
qed

theorem small_components_snapped_counterexample:
  "create_affine [(0, 0, 0), (0, 0, 1)]
      [((999999999999 / 1000000000001, 2000000 / 1000000000001, 0),
        (- 2000000 / 1000000000001, 999999999999 / 1000000000001, 0)),
       ((999999999999 / 1000000000001, 2000000 / 1000000000001, 0),
        (- 2000000 / 1000000000001, 999999999999 / 1000000000001, 0))]
      [(2 / 5, 2 / 5), (2 / 5, 2 / 5)]
    = Returns \<lparr>affine =
         [[999999999999 / 1000000000001 * (2 / 5), - 2000000 / 1000000000001 * (2 / 5), 0, 0],
          [2000000 / 1000000000001 * (2 / 5), 999999999999 / 1000000000001 * (2 / 5), 0, 0],
          [0, 0, 1, 0],
          [0, 0, 0, 1]],
        pixdim = [1, 2 / 5, 2 / 5, 1], stderr = []\<rparr> \<and>
   (2000000 / 1000000000001 * (2 / 5) :: real) \<noteq> 0 \<and>
   \<bar>2000000 / 1000000000001 * (2 / 5) :: real\<bar> < 1 / 10 ^ 6"
  by (simp add: ca_eval)

text \<open>
  Claim C6, as amended. Whenever the pixel-spacing array has a row and the averaged
  orientation can be normalised, \<open>create_affine\<close> returns the 4-element pixdim
  \<open>(qfac, spacing[0], spacing[1], sliceSpacing)\<close> with \<open>qfac = sign(vec . (u x v))\<close>,
  which is \<open>-1\<close>, \<open>0\<close> or \<open>1\<close>, and is \<open>0\<close> exactly when \<open>vec . (u x v) = 0\<close>.
  The claim as written excludes \<open>0\<close>, which is what a single-slice series and a series
  of slices at one position give.
\<close>

theorem create_affine_pixdim:
  fixes ipp :: "vec3 list" and u v :: vec3
  assumes ps: "ps \<noteq> []" and o: "orientation iop = Some (u, v)"
  defines "dv \<equiv> dot3 (fst (fit_positions ipp)) (cross u v)"
  shows "\<exists>res. create_affine ipp iop ps = Returns res \<and>
           pixdim res = [sgn dv, fst (hd ps), snd (hd ps),
                         round7 (norm3 (fst (fit_positions ipp)))] \<and>
           (pixdim res ! 0 = - 1 \<or> pixdim res ! 0 = 0 \<or> pixdim res ! 0 = 1) \<and>
           (pixdim res ! 0 = 0 \<longleftrightarrow> dv = 0)"
proof -
  from ps obtain ps0 rest where ps': "ps = ps0 # rest" by (cases ps) auto
  show ?thesis
    unfolding create_affine_Returns[OF ps' o] dv_def[symmetric]
    using sgn_cases_real[of dv] by (simp add: ps' sgn_zero_iff)
qed

theorem create_affine_pixdim_witness:
  "[(1, 1 :: real), (1, 1)] \<noteq> [] \<and>
   orientation [((1, 0, 0), (0, 1, 0)), ((1, 0, 0), (0, 1, 0))] = Some ((1, 0, 0), (0, 1, 0)) \<and>
   (\<exists>res. create_affine [(0, 0, 0), (0, 0, 2)]
              [((1, 0, 0), (0, 1, 0)), ((1, 0, 0), (0, 1, 0))] [(1, 1), (1, 1)] = Returns res \<and>
          pixdim res = [1, 1, 1, 2])"
proof -
  have h: "[(1, 1 :: real), (1, 1)] \<noteq> []"
    "orientation [((1, 0, 0), (0, 1, 0)), ((1, 0, 0), (0, 1, 0))] = Some ((1, 0, 0), (0, 1, 0))"
    by (simp_all add: orientation_def iop_mean_def normalize3_def norm3_def dot3_def vmap_def vsum_def
        snap_def)
  have f: "fit_positions [(0, 0, 0), (0, 0, 2)] = ((0, 0, 2), (0, 0, 0))"
    by (simp add: fit_positions_def lstsq_def lstsq_line_def vmap_def snap_def Let_def)
  have r: "round7 (norm3 (0, 0, 2)) = 2"
    by (simp add: round7_def rint_def norm3_def dot3_def Let_def)
  from create_affine_pixdim [OF h, of "[(0, 0, 0), (0, 0, 2)]"]
  have "\<exists>res. create_affine [(0, 0, 0), (0, 0, 2)]
              [((1, 0, 0), (0, 1, 0)), ((1, 0, 0), (0, 1, 0))] [(1, 1), (1, 1)] = Returns res \<and>
          pixdim res = [1, 1, 1, 2]"
    unfolding f by (auto simp: r dot3_def cross_def)
  with h show ?thesis by blast
qed

theorem create_affine_pixdim_counterexample:
  "create_affine [(0, 0, 0)] [((1, 0, 0), (0, 1, 0))] [(1, 1)] =
     Returns \<lparr>affine = [[1, 0, 0, 0], [0, 1, 0, 0], [0, 0, 0, 0], [0, 0, 0, 1]],
              pixdim = [0, 1, 1, 0], stderr = []\<rparr> \<and>
   create_affine [(0, 0, 5), (0, 0, 5)] [((1, 0, 0), (0, 1, 0)), ((1, 0, 0), (0, 1, 0))]
       [(1, 1), (1, 1)] =
     Returns \<lparr>affine = [[1, 0, 0, 0], [0, 1, 0, 0], [0, 0, 0, 5], [0, 0, 0, 1]],
              pixdim = [0, 1, 1, 0], stderr = []\<rparr> \<and>
   [0, 1, 1, 0 :: real] ! 0 \<noteq> 1 \<and> [0, 1, 1, 0 :: real] ! 0 \<noteq> - 1"
  by (simp add: ca_eval)



section \<open>Claims about the Series Loader\<close>

text \<open>
  Claim C8. The claim is that a data set whose instance number is missing or cannot be
  parsed gets the ordering key \<open>-1\<close> and that nothing is raised for it. The function
  attempts this with \<open>except (AttributeError, ValueError)\<close> and misses the third way in
  which \<open>int(ds.InstanceNumber)\<close> fails: for a readable file whose
  \<open>InstanceNumber\<close> is present and empty, or has several values, \<open>int\<close> raises
  TypeError, the clause does not catch it, and \<open>load_dicom_series\<close> raises instead of
  returning the series with that data set first.
\<close>

theorem load_dicom_series_uncaught_type_error:
  "load_dicom_series
     [Readable \<lparr>InstanceNumber = Value 2\<rparr>, Readable \<lparr>InstanceNumber = Unconvertible\<rparr>,
      Readable \<lparr>InstanceNumber = Value 1\<rparr>] = Inl TypeError \<and>
   load_dicom_series
     [Readable \<lparr>InstanceNumber = Value 2\<rparr>, Readable \<lparr>InstanceNumber = Malformed\<rparr>,
      Readable \<lparr>InstanceNumber = Value 1\<rparr>]
     = Inr [\<lparr>InstanceNumber = Malformed\<rparr>, \<lparr>InstanceNumber = Value 1\<rparr>,
            \<lparr>InstanceNumber = Value 2\<rparr>]"
  by (simp add: load_dicom_series_def instance_key_def)




section \<open>Claim about the arrays of the caller\<close>

text \<open>
  Claim C10. \<open>create_affine\<close> changes no array that exists when it is called: the store
  after the call is the store before it with new arrays behind, so every element of
  \<open>ipp\<close>, \<open>iop\<close> and \<open>ps\<close> has the value it had. The normalisation in place of
  \<open>u\<close> and \<open>v\<close> writes into \<open>iop_average\<close>, which \<open>np.mean\<close> allocated, not into
  \<open>iop\<close>. The same model computes the result of the first one: when \<open>create_affine\<close>
  returns on the rows of the three arrays, the two arrays whose addresses the call returns
  hold that matrix and that pixdim.
\<close>

theorem create_affine_leaves_inputs:
  fixes h :: heap and ipp iop ps :: nat
  defines "h' \<equiv> fst (create_affine_h h ipp iop ps)"
  shows "length h \<le> length h' \<and> take (length h) h' = h \<and>
         (\<forall>a<length h. h' ! a = h ! a) \<and>
         (ipp < length h \<and> iop < length h \<and> ps < length h \<longrightarrow>
            h' ! ipp = h ! ipp \<and> h' ! iop = h ! iop \<and> h' ! ps = h ! ps \<and>
            (\<forall>res. create_affine (rows3 (h ! ipp)) (rows6 (h ! iop)) (rows2 (h ! ps)) = Returns res
               \<longrightarrow> snd (create_affine_h h ipp iop ps) = Inr (length h + 4, length h + 5) \<and>
                   h' ! (length h + 4) = concat (affine res) \<and>
                   h' ! (length h + 5) = pixdim res))"
proof -
  have e: "extends h h'"
    unfolding h'_def by (rule create_affine_h_extends)
  then have 1: "length h \<le> length h'" "take (length h) h' = h"
    by (simp_all add: extends_def)
  have 2: "h' ! a = h ! a" if "a < length h" for a
    using e that by (rule extends_nth)
  have 3: "snd (create_affine_h h ipp iop ps) = Inr (length h + 4, length h + 5) \<and>
           h' ! (length h + 4) = concat (affine res) \<and> h' ! (length h + 5) = pixdim res"
    if "ipp < length h" "iop < length h" "ps < length h"
      "create_affine (rows3 (h ! ipp)) (rows6 (h ! iop)) (rows2 (h ! ps)) = Returns res" for res
    using create_affine_h_refines[OF that] by (auto simp: h'_def)
  show ?thesis using 1 2 3 by blast
qed

theorem create_affine_leaves_inputs_witness:
  "(1::nat) < length [[0, 0, 0, 0, 0, 2], [1, 0, 0, 0, 1, 0, 1, 0, 0, 0, 1, 0], [1, 1, 1, 1 :: real]] \<and>
   create_affine (rows3 [0, 0, 0, 0, 0, 2]) (rows6 [1, 0, 0, 0, 1, 0, 1, 0, 0, 0, 1, 0])
       (rows2 [1, 1, 1, 1])
     = Returns \<lparr>affine = [[1, 0, 0, 0], [0, 1, 0, 0], [0, 0, 2, 0], [0, 0, 0, 1]],
                pixdim = [1, 1, 1, 2], stderr = []\<rparr> \<and>
   fst (create_affine_h [[0, 0, 0, 0, 0, 2], [1, 0, 0, 0, 1, 0, 1, 0, 0, 0, 1, 0], [1, 1, 1, 1]]
          0 1 2) ! 1 = [1, 0, 0, 0, 1, 0, 1, 0, 0, 0, 1, 0] \<and>
   fst (create_affine_h [[0, 0, 0, 0, 0, 2], [1, 0, 0, 0, 1, 0, 1, 0, 0, 0, 1, 0], [1, 1, 1, 1]]
          0 1 2) ! 7 = [1, 0, 0, 0, 0, 1, 0, 0, 0, 0, 2, 0, 0, 0, 0, 1]"
proof -
  let ?h = "[[0, 0, 0, 0, 0, 2], [1, 0, 0, 0, 1, 0, 1, 0, 0, 0, 1, 0], [1, 1, 1, 1 :: real]]"
  let ?res = "\<lparr>affine = [[1, 0, 0, 0], [0, 1, 0, 0], [0, 0, 2, 0], [0, 0, 0, 1 :: real]],
                pixdim = [1, 1, 1, 2 :: real], stderr = []\<rparr>"
  have r: "rows3 [0, 0, 0, 0, 0, 2 :: real] = [(0, 0, 0), (0, 0, 2)]"
    "rows6 [1, 0, 0, 0, 1, 0, 1, 0, 0, 0, 1, 0 :: real] = [((1, 0, 0), (0, 1, 0)), ((1, 0, 0), (0, 1, 0))]"
    "rows2 [1, 1, 1, 1 :: real] = [(1, 1), (1, 1)]"
    by (simp_all add: rows3_def rows6_def rows2_def upt_conv_Cons)
  have c: "create_affine (rows3 [0, 0, 0, 0, 0, 2]) (rows6 [1, 0, 0, 0, 1, 0, 1, 0, 0, 0, 1, 0])
       (rows2 [1, 1, 1, 1]) = Returns ?res"
    unfolding r by (simp add: ca_eval)
  have l: "(1::nat) < length ?h" "(0::nat) < length ?h" "(2::nat) < length ?h" by simp_all
  note t = create_affine_leaves_inputs [of ?h 0 1 2]
  from t l(1) have a: "fst (create_affine_h ?h 0 1 2) ! 1 = ?h ! 1" by blast
  from t l have "\<forall>res. create_affine (rows3 (?h ! 0)) (rows6 (?h ! 1)) (rows2 (?h ! 2)) = Returns res
               \<longrightarrow> fst (create_affine_h ?h 0 1 2) ! (length ?h + 4) = concat (affine res)"
    by blast
  then have "create_affine (rows3 (?h ! 0)) (rows6 (?h ! 1)) (rows2 (?h ! 2)) = Returns ?res
               \<longrightarrow> fst (create_affine_h ?h 0 1 2) ! (length ?h + 4) = concat (affine ?res)"
    by (rule spec)
  with c have b: "fst (create_affine_h ?h 0 1 2) ! 7 = [1, 0, 0, 0, 0, 1, 0, 0, 0, 0, 2, 0, 0, 0, 0, 1]"
    by simp
  from l(1) c a b show ?thesis by simp
qed

end
